theory Spec2Isabelle
  imports Complex_Main
begin

section \<open>Conventions of the embedding\<close>

text \<open>
  The program is TypeScript over a SQLite store. Its numbers are IEEE doubles; they are
  modelled as \<^typ>\<open>real\<close>, so every statement below is about exact arithmetic
  (no NaN, no rounding of sums and quotients). Calendar days, which the program keeps as
  ISO strings \<^verbatim>\<open>YYYY-MM-DD\<close>, are modelled by their day number: the order of
  well-formed ISO strings (SQL \<^verbatim>\<open>ORDER BY\<close>, JavaScript \<^verbatim>\<open>sort()\<close>) is the
  order of the day numbers. An instant of a JavaScript \<^verbatim>\<open>Date\<close> is its time value, the
  milliseconds since the epoch in UTC; the time zone of the browser is a parameter.
\<close>

type_synonym day = int

text \<open>
  The time zone of the environment, as ECMAScript sees it: \<open>utcOffset t\<close> is
  \<^verbatim>\<open>LocalTZA(t, true)\<close>, the offset of local time at the UTC instant \<open>t\<close>, and
  \<open>localOffset t\<close> is \<^verbatim>\<open>LocalTZA(t, false)\<close>, the offset to take for the local time value
  \<open>t\<close>; both in milliseconds.
\<close>

record zone =
  utcOffset :: "int \<Rightarrow> int"
  localOffset :: "int \<Rightarrow> int"

definition msPerDay :: int where
  "msPerDay = 86400000"

text \<open>\<^verbatim>\<open>new Date("YYYY-MM-DD")\<close>: a date-only string is midnight UTC of that day.\<close>

definition newDate :: "day \<Rightarrow> int" where
  "newDate dateStr = dateStr * msPerDay"

text \<open>
  \<^verbatim>\<open>nd.setDate(nd.getDate() + k)\<close>: \<^verbatim>\<open>getDate\<close> reads the day of the month of the local
  time \<open>t + utcOffset t\<close>; \<^verbatim>\<open>setDate\<close> moves the local day by \<open>k\<close>, keeps the local time
  within the day, and converts the local time value back with \<^verbatim>\<open>UTC(t) = t - LocalTZA(t, false)\<close>.
\<close>

definition setDate_getDate_plus :: "zone \<Rightarrow> int \<Rightarrow> int \<Rightarrow> int" where
  "setDate_getDate_plus tz t k =
     (let localTime = t + utcOffset tz t;
          newLocal = (localTime div msPerDay + k) * msPerDay + localTime mod msPerDay
      in newLocal - localOffset tz newLocal)"

text \<open>\<^verbatim>\<open>toISOString().split("T")[0]\<close>: the UTC day of the instant.\<close>

definition toISODate :: "int \<Rightarrow> day" where
  "toISODate t = t div msPerDay"

text \<open>The three steps together: the key built from \<open>dateStr\<close> and a number of days.\<close>

definition shiftedKey :: "zone \<Rightarrow> day \<Rightarrow> int \<Rightarrow> day" where
  "shiftedKey tz dateStr k = toISODate (setDate_getDate_plus tz (newDate dateStr) k)"

text \<open>\<^verbatim>\<open>xs.reduce((sum, r) => sum + f(r), 0)\<close>\<close>

definition reduce_sum :: "('a \<Rightarrow> real) \<Rightarrow> 'a list \<Rightarrow> real" where
  "reduce_sum f xs = foldl (\<lambda>sum r. sum + f r) 0 xs"

text \<open>\<^verbatim>\<open>xs.slice(a, b)\<close> for indices \<open>0 \<le> a\<close>, \<open>0 \<le> b\<close>; the end is cut at the length.\<close>

definition js_slice :: "'a list \<Rightarrow> nat \<Rightarrow> nat \<Rightarrow> 'a list" where
  "js_slice xs a b = take (b - a) (drop a xs)"

text \<open>\<^verbatim>\<open>Math.round\<close>: the nearest integer, a half going up.\<close>

definition Math_round :: "real \<Rightarrow> int" where
  "Math_round x = \<lfloor>x + 1 / 2\<rfloor>"

section \<open>Regime classifier (\<^verbatim>\<open>interpretTermSpread\<close>)\<close>

datatype spread_type = Term_spread_7dma | Term_spread | Single_maturity

text \<open>
  \<^verbatim>\<open>CurveInterpretation\<close>. The description, the colours and the outlook sentence are
  display strings chosen by the same two \<^verbatim>\<open>if\<close> chains as \<open>shape\<close> and \<open>regime\<close>;
  they are left out.
\<close>

record CurveInterpretation =
  shape :: string
  regime :: string
  spreadValue :: real
  spreadType :: spread_type
  probPositive90d :: real

definition interpretTermSpread :: "real \<Rightarrow> spread_type \<Rightarrow> CurveInterpretation" where
  "interpretTermSpread spreadPct st =
     (if st = Single_maturity then
        \<lparr>shape = ''SINGLE MATURITY'', regime = ''NO SIGNAL'', spreadValue = 0,
         spreadType = Single_maturity, probPositive90d = 50\<rparr>
      else
        let shp = (if spreadPct > 2 then ''STEEP CONTANGO''
                   else if spreadPct > 0.5 then ''CONTANGO''
                   else if spreadPct > - 0.5 then ''FLAT''
                   else if spreadPct > - 5 then ''BACKWARDATION''
                   else ''STEEP BACKWARDATION'');
            reg = (if spreadPct > 2 then ''STRONGLY BULLISH''
                   else if spreadPct > 0.5 then ''BULLISH''
                   else if spreadPct > - 0.5 then ''NEUTRAL''
                   else if spreadPct > - 5 then ''MILDLY BEARISH''
                   else ''BEARISH'');
            prob = max 5 (min 95 (50 + spreadPct * 8))
        in \<lparr>shape = shp, regime = reg,
            spreadValue = real_of_int (Math_round (spreadPct * 100)) / 100,
            spreadType = st,
            probPositive90d = real_of_int (Math_round (prob * 10)) / 10\<rparr>)"

text \<open>The clamp of the specification, and rounding to one decimal place.\<close>

definition clamp :: "real \<Rightarrow> real \<Rightarrow> real \<Rightarrow> real" where
  "clamp x lo hi = (if x < lo then lo else if x > hi then hi else x)"

definition round1 :: "real \<Rightarrow> real" where
  "round1 x = real_of_int (round (x * 10)) / 10"

section \<open>The store (\<^verbatim>\<open>server/db.ts\<close>)\<close>

text \<open>
  A row of \<^verbatim>\<open>daily_snapshots\<close>, with the columns the spread engine reads.
  \<^verbatim>\<open>days_to_expiry\<close> is a nullable INTEGER.
\<close>

record daily_snapshot =
  s_date :: day
  market_addr :: string
  expiry :: day
  implied_apy :: real
  underlying_apy :: real
  days_to_expiry :: "int option"

text \<open>
  A row of \<^verbatim>\<open>term_spreads\<close> (the interface \<^verbatim>\<open>TermSpread\<close> of the client), with
  the three columns added by the schema migration. The table is the list of its rows;
  \<^verbatim>\<open>PRIMARY KEY (date)\<close> is the invariant \<open>distinct (map date t)\<close>.
\<close>

record TermSpread =
  date :: day
  front_addr :: string
  front_expiry :: day
  front_implied :: real
  back_addr :: string
  back_expiry :: day
  back_implied :: real
  term_spread :: real
  term_spread_7dma :: "real option"
  ts_underlying_apy :: "real option"
  num_maturities :: int
  ts_regime :: "string option"
  btc_outlook :: "string option"
  prob_positive_90d :: "real option"

text \<open>The named parameters bound by \<^verbatim>\<open>upsertTermSpread.run\<close>.\<close>

record upsert_params =
  p_date :: day
  frontAddr :: string
  frontExpiry :: day
  frontImplied :: real
  backAddr :: string
  backExpiry :: day
  backImplied :: real
  termSpread :: real
  underlyingApy :: real
  numMaturities :: int

text \<open>\<^verbatim>\<open>SELECT * FROM term_spreads WHERE date = d\<close>\<close>

definition lookup :: "TermSpread list \<Rightarrow> day \<Rightarrow> TermSpread option" where
  "lookup t d = find (\<lambda>r. date r = d) t"

text \<open>
  \<^verbatim>\<open>INSERT INTO term_spreads (...) VALUES (..., NULL, ...) ON CONFLICT(date) DO UPDATE SET ...\<close>.
  \<open>insertedRow\<close> is the row of the \<^verbatim>\<open>VALUES\<close> clause: the smoothed value is NULL, and
  so are the regime columns, which the statement does not list. \<open>conflictUpdate\<close> is the
  \<^verbatim>\<open>DO UPDATE SET\<close> clause with its nine assignments.
\<close>

definition insertedRow :: "upsert_params \<Rightarrow> TermSpread" where
  "insertedRow p =
     \<lparr>date = p_date p, front_addr = frontAddr p, front_expiry = frontExpiry p,
      front_implied = frontImplied p, back_addr = backAddr p,
      back_expiry = backExpiry p, back_implied = backImplied p,
      term_spread = termSpread p, term_spread_7dma = None,
      ts_underlying_apy = Some (underlyingApy p),
      num_maturities = numMaturities p, ts_regime = None, btc_outlook = None,
      prob_positive_90d = None\<rparr>"

definition conflictUpdate :: "upsert_params \<Rightarrow> TermSpread \<Rightarrow> TermSpread" where
  "conflictUpdate p r =
     r\<lparr>front_addr := frontAddr p, front_expiry := frontExpiry p,
       front_implied := frontImplied p, back_addr := backAddr p,
       back_expiry := backExpiry p, back_implied := backImplied p,
       term_spread := termSpread p, ts_underlying_apy := Some (underlyingApy p),
       num_maturities := numMaturities p\<rparr>"

definition upsertTermSpread :: "upsert_params \<Rightarrow> TermSpread list \<Rightarrow> TermSpread list" where
  "upsertTermSpread p t =
     (if \<exists>r \<in> set t. date r = p_date p
      then map (\<lambda>r. if date r = p_date p then conflictUpdate p r else r) t
      else t @ [insertedRow p])"

text \<open>\<^verbatim>\<open>UPDATE term_spreads SET term_spread_7dma = @termSpread7dma WHERE date = @date\<close>\<close>

definition updateTermSpread7dma :: "day \<times> real \<Rightarrow> TermSpread list \<Rightarrow> TermSpread list" where
  "updateTermSpread7dma u t =
     map (\<lambda>r. if date r = fst u then r\<lparr>term_spread_7dma := Some (snd u)\<rparr> else r) t"

text \<open>
  \<^verbatim>\<open>UPDATE term_spreads SET regime = @regime, btc_outlook = @btcOutlook,
  prob_positive_90d = @probPositive90d WHERE date = @date\<close>
\<close>

definition updateRegime ::
  "day \<Rightarrow> string option \<Rightarrow> string option \<Rightarrow> real option \<Rightarrow> TermSpread list \<Rightarrow> TermSpread list" where
  "updateRegime d rg ol pr t =
     map (\<lambda>r. if date r = d then
                 r\<lparr>ts_regime := rg, btc_outlook := ol, prob_positive_90d := pr\<rparr>
               else r) t"

section \<open>Spread engine (\<^verbatim>\<open>computeTermSpreads\<close>)\<close>

text \<open>
  \<^verbatim>\<open>SELECT date ... FROM daily_snapshots GROUP BY date ORDER BY date\<close>: the distinct
  dates, ascending.
\<close>

definition snapshotDates :: "daily_snapshot list \<Rightarrow> day list" where
  "snapshotDates snaps = sort (remdups (map s_date snaps))"

text \<open>
  \<^verbatim>\<open>SELECT ... FROM daily_snapshots WHERE date = ? AND days_to_expiry > 0 ORDER BY expiry ASC\<close>.
  A NULL \<^verbatim>\<open>days_to_expiry\<close> fails the comparison. SQL leaves the order of rows with
  equal expiry open; here they keep the order of the table.
\<close>

definition live :: "daily_snapshot \<Rightarrow> bool" where
  "live s = (case days_to_expiry s of None \<Rightarrow> False | Some n \<Rightarrow> n > 0)"

definition liveSnapshots :: "daily_snapshot list \<Rightarrow> day \<Rightarrow> daily_snapshot list" where
  "liveSnapshots snaps d = sort_key expiry (filter (\<lambda>s. s_date s = d \<and> live s) snaps)"

text \<open>\<^verbatim>\<open>[...new Set(xs)]\<close>: the elements in the order of their first occurrence.\<close>

definition newSet :: "'a list \<Rightarrow> 'a list" where
  "newSet xs = foldl (\<lambda>acc x. if x \<in> set acc then acc else acc @ [x]) [] xs"

text \<open>
  The body of the loop over the dates: \<open>None\<close> is the \<^verbatim>\<open>continue\<close>, \<open>Some p\<close> the
  parameters handed to \<^verbatim>\<open>upsertTermSpread.run\<close>.
\<close>

definition spreadParams :: "day \<Rightarrow> daily_snapshot list \<Rightarrow> upsert_params option" where
  "spreadParams d snapshots =
     (if length snapshots = 0 then None
      else
        let uniqueExpiries = sort (newSet (map expiry snapshots)) in
        if length uniqueExpiries \<ge> 2 then
          let frontExpiry = uniqueExpiries ! 0;
              backExpiry = uniqueExpiries ! (length uniqueExpiries - 1);
              frontSnaps = filter (\<lambda>s. expiry s = frontExpiry) snapshots;
              backSnaps = filter (\<lambda>s. expiry s = backExpiry) snapshots;
              frontImplied = reduce_sum implied_apy frontSnaps / real (length frontSnaps);
              backImplied = reduce_sum implied_apy backSnaps / real (length backSnaps);
              termSpread = backImplied - frontImplied;
              underlyingApy = underlying_apy (frontSnaps ! 0)
          in Some \<lparr>p_date = d, frontAddr = market_addr (frontSnaps ! 0),
                    frontExpiry = frontExpiry, frontImplied = frontImplied,
                    backAddr = market_addr (backSnaps ! 0), backExpiry = backExpiry,
                    backImplied = backImplied, termSpread = termSpread,
                    underlyingApy = underlyingApy,
                    numMaturities = int (length uniqueExpiries)\<rparr>
        else
          let snap = snapshots ! 0
          in Some \<lparr>p_date = d, frontAddr = market_addr snap, frontExpiry = expiry snap,
                    frontImplied = implied_apy snap, backAddr = market_addr snap,
                    backExpiry = expiry snap, backImplied = implied_apy snap,
                    termSpread = 0, underlyingApy = underlying_apy snap,
                    numMaturities = 1\<rparr>)"

definition processDate :: "daily_snapshot list \<Rightarrow> TermSpread list \<Rightarrow> day \<Rightarrow> TermSpread list" where
  "processDate snaps t d =
     (case spreadParams d (liveSnapshots snaps d) of
        None \<Rightarrow> t
      | Some p \<Rightarrow> upsertTermSpread p t)"

definition computeTermSpreads :: "daily_snapshot list \<Rightarrow> TermSpread list \<Rightarrow> TermSpread list" where
  "computeTermSpreads snaps t = foldl (processDate snaps) t (snapshotDates snaps)"

text \<open>
  What the specification says of a date: the maturities left after the filter, the live
  snapshots of one maturity (a leg), and the unweighted mean of their implied yields.
\<close>

definition maturities :: "daily_snapshot list \<Rightarrow> day \<Rightarrow> day set" where
  "maturities snaps d = expiry ` {s \<in> set snaps. s_date s = d \<and> live s}"

definition leg :: "daily_snapshot list \<Rightarrow> day \<Rightarrow> day \<Rightarrow> daily_snapshot list" where
  "leg snaps d e = filter (\<lambda>s. s_date s = d \<and> live s \<and> expiry s = e) snaps"

definition mean_implied :: "daily_snapshot list \<Rightarrow> real" where
  "mean_implied ss = sum_list (map implied_apy ss) / real (length ss)"

text \<open>A stored row carries the parameters of an upsert.\<close>

definition carries :: "upsert_params \<Rightarrow> TermSpread \<Rightarrow> bool" where
  "carries p r \<longleftrightarrow>
     date r = p_date p \<and> front_addr r = frontAddr p \<and> front_expiry r = frontExpiry p
   \<and> front_implied r = frontImplied p \<and> back_addr r = backAddr p
   \<and> back_expiry r = backExpiry p \<and> back_implied r = backImplied p
   \<and> term_spread r = termSpread p \<and> ts_underlying_apy r = Some (underlyingApy p)
   \<and> num_maturities r = numMaturities p"

section \<open>Smoothing pass (\<^verbatim>\<open>compute7DayMA\<close>)\<close>

text \<open>\<^verbatim>\<open>SELECT date, term_spread FROM term_spreads ORDER BY date ASC\<close>\<close>

definition spreadSeries :: "TermSpread list \<Rightarrow> TermSpread list" where
  "spreadSeries t = sort_key date t"

definition trailingAvg :: "TermSpread list \<Rightarrow> nat \<Rightarrow> real" where
  "trailingAvg rows i =
     (let windowStart = nat (max 0 (int i - 6));
          window = js_slice rows windowStart (i + 1)
      in reduce_sum term_spread window / real (length window))"

definition maUpdates :: "TermSpread list \<Rightarrow> (day \<times> real) list" where
  "maUpdates rows = map (\<lambda>i. (date (rows ! i), trailingAvg rows i)) [0..<length rows]"

definition compute7DayMA :: "TermSpread list \<Rightarrow> TermSpread list" where
  "compute7DayMA t =
     (let rows = spreadSeries t in
      if length rows = 0 then t
      else foldl (\<lambda>t' u. updateTermSpread7dma u t') t (maUpdates rows))"

section \<open>The value handed to the classifier (\<^verbatim>\<open>SUSDEDashboard\<close>)\<close>

text \<open>
  Priority: the smoothed spread, then the raw spread, then single maturity; the stored
  decimal fraction is scaled to percentage points.
\<close>

definition classifyLatest :: "TermSpread \<Rightarrow> CurveInterpretation" where
  "classifyLatest latestSpread =
     (let hasMultiMaturity = (num_maturities latestSpread \<ge> 2);
          has7dma = (term_spread_7dma latestSpread \<noteq> None)
      in if hasMultiMaturity \<and> has7dma then
           interpretTermSpread (the (term_spread_7dma latestSpread) * 100) Term_spread_7dma
         else if hasMultiMaturity then
           interpretTermSpread (term_spread latestSpread * 100) Term_spread
         else interpretTermSpread 0 Single_maturity)"

section \<open>Analytics (\<^verbatim>\<open>computeDeciles\<close> and the charts of \<^verbatim>\<open>SUSDEDashboard\<close>)\<close>

text \<open>\<^verbatim>\<open>interface TermSpreadWithBtc extends TermSpread\<close>\<close>

record TermSpreadWithBtc = TermSpread +
  btc_price :: "real option"
  defillama_apy :: "real option"

text \<open>
  \<^verbatim>\<open>findBtcPrice\<close>: the exact date, then the loop over the offsets 1, 2, 3 with the inner
  loop over the directions \<open>[1, -1]\<close>; \<open>None\<close> is \<^verbatim>\<open>null\<close>.
\<close>

fun probeDirs :: "zone \<Rightarrow> (day \<rightharpoonup> real) \<Rightarrow> day \<Rightarrow> int \<Rightarrow> int list \<Rightarrow> real option" where
  "probeDirs tz btcPriceMap d offset [] = None"
| "probeDirs tz btcPriceMap d offset (dir # dirs) =
     (case btcPriceMap (shiftedKey tz d (offset * dir)) of
        Some price \<Rightarrow> Some price
      | None \<Rightarrow> probeDirs tz btcPriceMap d offset dirs)"

fun probeOffsets :: "zone \<Rightarrow> (day \<rightharpoonup> real) \<Rightarrow> day \<Rightarrow> int list \<Rightarrow> real option" where
  "probeOffsets tz btcPriceMap d [] = None"
| "probeOffsets tz btcPriceMap d (offset # offsets) =
     (case probeDirs tz btcPriceMap d offset [1, - 1] of
        Some price \<Rightarrow> Some price
      | None \<Rightarrow> probeOffsets tz btcPriceMap d offsets)"

definition findBtcPrice :: "zone \<Rightarrow> (day \<rightharpoonup> real) \<Rightarrow> day \<Rightarrow> real option" where
  "findBtcPrice tz btcPriceMap dateStr =
     (case btcPriceMap dateStr of
        Some exact \<Rightarrow> Some exact
      | None \<Rightarrow> probeOffsets tz btcPriceMap dateStr [1, 2, 3])"

text \<open>
  The 90-day forward return of one row, in percent; \<open>None\<close> when the row is passed over
  (\<^verbatim>\<open>continue\<close>, or no future price and nothing pushed). The date 90 days ahead is
  built by the same three steps; \<open>finder\<close> is the lookup of the chart at hand.
\<close>

definition forwardReturn ::
  "(zone \<Rightarrow> (day \<rightharpoonup> real) \<Rightarrow> day \<Rightarrow> real option) \<Rightarrow> zone \<Rightarrow> (day \<rightharpoonup> real) \<Rightarrow>
   'a TermSpreadWithBtc_scheme \<Rightarrow> real option" where
  "forwardReturn finder tz btcPriceMap row =
     (case (case btc_price row of Some p \<Rightarrow> Some p | None \<Rightarrow> finder tz btcPriceMap (date row)) of
        None \<Rightarrow> None
      | Some currentPrice \<Rightarrow>
          if currentPrice \<le> 0 then None
          else (case finder tz btcPriceMap (shiftedKey tz (date row) 90) of
                  None \<Rightarrow> None
                | Some futurePrice \<Rightarrow> Some ((futurePrice - currentPrice) / currentPrice * 100)))"

text \<open>
  \<^verbatim>\<open>DecileRow\<close>. The range is kept as the two percentages that the source formats with
  \<^verbatim>\<open>toFixed(1)\<close>; the colour is left out.
\<close>

record DecileRow =
  decile :: nat
  range_pct :: "real \<times> real"
  count :: nat
  avgSpread :: real
  avgBtcReturn90d :: "real option"

definition decileSlice :: "'a list \<Rightarrow> nat \<Rightarrow> 'a list" where
  "decileSlice sortedRows d =
     (let n = length sortedRows;
          decileSize = n div 10;
          start = d * decileSize;
          end = (if d = 9 then n else (d + 1) * decileSize)
      in js_slice sortedRows start end)"

definition decileRow ::
  "zone \<Rightarrow> TermSpreadWithBtc list \<Rightarrow> (day \<rightharpoonup> real) \<Rightarrow> nat \<Rightarrow> DecileRow" where
  "decileRow tz sortedRows btcPriceMap d =
     (let slice = decileSlice sortedRows d;
          avg = reduce_sum term_spread slice / real (length slice);
          returns = List.map_filter (forwardReturn findBtcPrice tz btcPriceMap) slice;
          avgReturn = (if length returns > 0
                       then Some (foldl (+) 0 returns / real (length returns)) else None)
      in \<lparr>decile = d + 1,
          range_pct = (term_spread (slice ! 0) * 100,
                       term_spread (slice ! (length slice - 1)) * 100),
          count = length slice,
          avgSpread = avg * 100,
          avgBtcReturn90d = avgReturn\<rparr>)"

text \<open>The comparator \<^verbatim>\<open>a.term_spread - b.term_spread\<close>; the sort of JavaScript is stable.\<close>

definition computeDeciles ::
  "zone \<Rightarrow> TermSpreadWithBtc list \<Rightarrow> (day \<rightharpoonup> real) \<Rightarrow> DecileRow list" where
  "computeDeciles tz spreadsWithBtc btcPriceMap =
     (if length spreadsWithBtc < 20 then []
      else
        let sortedRows = sort_key term_spread spreadsWithBtc
        in map (decileRow tz sortedRows btcPriceMap) [0..<10])"

text \<open>
  The scatter chart: \<^verbatim>\<open>findPrice\<close>, a second copy of the lookup, and the points it
  pushes.
\<close>

definition findPrice :: "zone \<Rightarrow> (day \<rightharpoonup> real) \<Rightarrow> day \<Rightarrow> real option" where
  "findPrice tz btcPriceMap dateStr =
     (case btcPriceMap dateStr of
        Some exact \<Rightarrow> Some exact
      | None \<Rightarrow> probeOffsets tz btcPriceMap dateStr [1, 2, 3])"

definition scatterPoints ::
  "zone \<Rightarrow> TermSpreadWithBtc list \<Rightarrow> (day \<rightharpoonup> real) \<Rightarrow> (real \<times> real) list" where
  "scatterPoints tz rows btcPriceMap =
     List.map_filter
       (\<lambda>row. map_option (\<lambda>fwdReturn. (term_spread row * 100, fwdReturn))
                 (forwardReturn findPrice tz btcPriceMap row))
       rows"

text \<open>
  The volatility chart. The rows are first enriched with
  \<^verbatim>\<open>r.btc_price ?? btcPriceMap.get(r.date) ?? null\<close> and those without a price dropped;
  a row that is kept is paired with its price. \<^verbatim>\<open>rows[j].btc && rows[j - 1]?.btc\<close> is
  the truthiness of both prices: a number is falsy when it is zero.
\<close>

definition pricedRows ::
  "TermSpreadWithBtc list \<Rightarrow> (day \<rightharpoonup> real) \<Rightarrow> (TermSpreadWithBtc \<times> real) list" where
  "pricedRows spreadsWithBtc btcPriceMap =
     List.map_filter
       (\<lambda>r. map_option (\<lambda>btc. (r, btc))
               (case btc_price r of Some p \<Rightarrow> Some p | None \<Rightarrow> btcPriceMap (date r)))
       spreadsWithBtc"

definition logReturns :: "(TermSpreadWithBtc \<times> real) list \<Rightarrow> nat \<Rightarrow> real list" where
  "logReturns rows i =
     concat (map (\<lambda>j. if snd (rows ! j) \<noteq> 0 \<and> snd (rows ! (j - 1)) \<noteq> 0
                       then [ln (snd (rows ! j) / snd (rows ! (j - 1)))] else [])
                 [i - 29..<i + 1])"

definition vol30d :: "(TermSpreadWithBtc \<times> real) list \<Rightarrow> nat \<Rightarrow> real option" where
  "vol30d rows i =
     (if i \<ge> 30 then
        let returns = logReturns rows i in
        if length returns > 5 then
          let mean = foldl (+) 0 returns / real (length returns);
              variance = foldl (\<lambda>a b. a + (b - mean)\<^sup>2) 0 returns / real (length returns)
          in Some (sqrt (variance * 365) * 100)
        else None
      else None)"

record VolPoint =
  v_date :: day
  spread7dma :: real
  vol_30d :: "real option"

definition volSeries :: "TermSpreadWithBtc list \<Rightarrow> (day \<rightharpoonup> real) \<Rightarrow> VolPoint list" where
  "volSeries spreadsWithBtc btcPriceMap =
     (let rows = pricedRows spreadsWithBtc btcPriceMap
      in map (\<lambda>i. \<lparr>v_date = date (fst (rows ! i)),
                    spread7dma = (case term_spread_7dma (fst (rows ! i)) of
                                    Some a \<Rightarrow> a * 100
                                  | None \<Rightarrow> term_spread (fst (rows ! i)) * 100),
                    vol_30d = vol30d rows i\<rparr>)
             [0..<length rows])"

text \<open>
  The standard deviation of the specification: the root of the mean squared deviation
  from the mean.
\<close>

definition mean :: "real list \<Rightarrow> real" where
  "mean xs = sum_list xs / real (length xs)"

definition stddev :: "real list \<Rightarrow> real" where
  "stddev xs = sqrt (sum_list (map (\<lambda>x. (x - mean xs)\<^sup>2) xs) / real (length xs))"

text \<open>
  The price of an observation: its own when it has one, else the price of exactly its
  date in the map. An observation is priced when this is not \<open>None\<close>.
\<close>

definition priceAt :: "(day \<rightharpoonup> real) \<Rightarrow> 'a TermSpreadWithBtc_scheme \<Rightarrow> real option" where
  "priceAt m r = (if btc_price r \<noteq> None then btc_price r else m (date r))"

section \<open>Concrete inputs\<close>

text \<open>
  Two rows of \<^verbatim>\<open>term_spreads\<close> with two maturities: a raw spread of 0.3 percentage
  points with no smoothed value, and a raw spread of 3 points whose 7-day average is
  -6 points.
\<close>

definition flatPositive :: TermSpread where
  "flatPositive = \<lparr>date = 19875, front_addr = ''0xa'', front_expiry = 19905,
     front_implied = 40 / 1000, back_addr = ''0xb'', back_expiry = 20058,
     back_implied = 43 / 1000, term_spread = 3 / 1000, term_spread_7dma = None,
     ts_underlying_apy = Some (5 / 100), num_maturities = 2, ts_regime = None,
     btc_outlook = None, prob_positive_90d = None\<rparr>"

definition smoothedNegative :: TermSpread where
  "smoothedNegative = \<lparr>date = 19876, front_addr = ''0xa'', front_expiry = 19905,
     front_implied = 40 / 1000, back_addr = ''0xb'', back_expiry = 20058,
     back_implied = 70 / 1000, term_spread = 30 / 1000, term_spread_7dma = Some (- 60 / 1000),
     ts_underlying_apy = Some (5 / 100), num_maturities = 2, ts_regime = None,
     btc_outlook = None, prob_positive_90d = None\<rparr>"

text \<open>A row with two maturities and a raw spread of 3 percentage points.\<close>

definition contangoRow :: TermSpread where
  "contangoRow = \<lparr>date = 19877, front_addr = ''0xa'', front_expiry = 19905,
     front_implied = 40 / 1000, back_addr = ''0xb'', back_expiry = 20058,
     back_implied = 70 / 1000, term_spread = 30 / 1000, term_spread_7dma = None,
     ts_underlying_apy = Some (5 / 100), num_maturities = 2, ts_regime = None,
     btc_outlook = None, prob_positive_90d = None\<rparr>"

text \<open>
  Two time zones. \<open>utc\<close> has no offset. \<open>newYork2024\<close> has the offsets of
  America/New_York during 2024: five hours behind UTC, and four hours behind between
  2024-03-10 07:00 UTC (local 02:00 becomes 03:00) and 2024-11-03 06:00 UTC (local 02:00
  becomes 01:00). A local time that is skipped or repeated takes the offset in force
  before the change.
\<close>

definition utc :: zone where
  "utc = \<lparr>utcOffset = (\<lambda>t. 0), localOffset = (\<lambda>t. 0)\<rparr>"

definition newYork2024 :: zone where
  "newYork2024 =
     \<lparr>utcOffset = (\<lambda>t. if 19792 * 86400000 + 7 * 3600000 \<le> t \<and> t < 20030 * 86400000 + 6 * 3600000
                       then - 4 * 3600000 else - 5 * 3600000),
      localOffset = (\<lambda>t. if 19792 * 86400000 + 3 * 3600000 \<le> t \<and> t < 20030 * 86400000 + 2 * 3600000
                         then - 4 * 3600000 else - 5 * 3600000)\<rparr>"

text \<open>
  A price map whose only price is that of day 19794 (2024-03-12), and one whose only
  price is that of day 20028 (2024-11-01).
\<close>

definition marchPrices :: "day \<rightharpoonup> real" where
  "marchPrices = [19794 \<mapsto> 70000]"

definition novemberPrices :: "day \<rightharpoonup> real" where
  "novemberPrices = [20028 \<mapsto> 68000]"

text \<open>
  A stored row that already has its smoothed value and its regime columns, and the
  parameters of a later run of the spread engine for the same date.
\<close>

definition storedRow :: TermSpread where
  "storedRow = \<lparr>date = 19876, front_addr = ''0xa'', front_expiry = 19905,
     front_implied = 40 / 1000, back_addr = ''0xb'', back_expiry = 20058,
     back_implied = 10 / 1000, term_spread = - 30 / 1000, term_spread_7dma = Some (- 20 / 1000),
     ts_underlying_apy = Some (5 / 100), num_maturities = 2,
     ts_regime = Some ''MILDLY BEARISH'', btc_outlook = Some ''Slightly negative skew'',
     prob_positive_90d = Some 34\<rparr>"

definition rerunParams :: upsert_params where
  "rerunParams = \<lparr>p_date = 19876, frontAddr = ''0xc'', frontExpiry = 19900,
     frontImplied = 50 / 1000, backAddr = ''0xd'', backExpiry = 20100,
     backImplied = 80 / 1000, termSpread = 30 / 1000, underlyingApy = 6 / 100,
     numMaturities = 3\<rparr>"

text \<open>An observation of day 19885 (2024-06-11) with its own price.\<close>

definition gapRow :: TermSpreadWithBtc where
  "gapRow = \<lparr>date = 19885, front_addr = ''0xa'', front_expiry = 19905,
     front_implied = 40 / 1000, back_addr = ''0xb'', back_expiry = 20058,
     back_implied = 70 / 1000, term_spread = 30 / 1000, term_spread_7dma = None,
     ts_underlying_apy = Some (5 / 100), num_maturities = 2, ts_regime = None,
     btc_outlook = None, prob_positive_90d = None,
     btc_price = Some 60000, defillama_apy = None\<rparr>"

text \<open>
  Twenty-five observations on consecutive days, with spreads falling from 24 to 0 tenths
  of a percentage point.
\<close>

definition obs25 :: "TermSpreadWithBtc list" where
  "obs25 = map (\<lambda>k. gapRow\<lparr>date := 19885 + int k, term_spread := (24 - real k) / 1000\<rparr>) [0..<25]"

text \<open>
  Forty-eight observations on the consecutive days 19885 to 19932. Those of the seven days
  19902 to 19908 have no price; the others carry their own.
\<close>

definition gapObs :: "TermSpreadWithBtc list" where
  "gapObs = map (\<lambda>k. gapRow\<lparr>date := 19885 + int k,
                              btc_price := (if 17 \<le> k \<and> k < 24 then None
                                            else Some (60000 + 100 * real k))\<rparr>)
              [0..<48]"

text \<open>
  A table of eight spread rows on consecutive days, stored out of date order; the spread
  of day \<open>19884 + k\<close> is \<open>k\<close> hundredths.
\<close>

definition series8 :: "TermSpread list" where
  "series8 = map (\<lambda>k. storedRow\<lparr>date := 19884 + k, term_spread := real_of_int k / 100,
                                 term_spread_7dma := None\<rparr>)
               [3, 1, 0, 2, 7, 5, 4, 6]"

text \<open>
  Snapshots of day 19875 (2024-06-01): one market expiring on day 19905 with an implied
  yield of 4%, two markets expiring on day 20058 with 6% and 8%, and one market that
  expired 37 days earlier.
\<close>

definition scenario1 :: "daily_snapshot list" where
  "scenario1 =
     [\<lparr>s_date = 19875, market_addr = ''0xback1'', expiry = 20058, implied_apy = 6 / 100,
       underlying_apy = 5 / 100, days_to_expiry = Some 183\<rparr>,
      \<lparr>s_date = 19875, market_addr = ''0xfront'', expiry = 19905, implied_apy = 4 / 100,
       underlying_apy = 5 / 100, days_to_expiry = Some 30\<rparr>,
      \<lparr>s_date = 19875, market_addr = ''0xback2'', expiry = 20058, implied_apy = 8 / 100,
       underlying_apy = 5 / 100, days_to_expiry = Some 183\<rparr>,
      \<lparr>s_date = 19875, market_addr = ''0xgone'', expiry = 19838, implied_apy = 90 / 100,
       underlying_apy = 5 / 100, days_to_expiry = Some (- 37)\<rparr>]"

text \<open>
  Snapshots of day 19975 (2024-09-09) of two markets that share the expiry 19992
  (2024-09-26), with implied yields of 4% and 6%; no other market has a snapshot.
\<close>

definition twoMarkets :: "daily_snapshot list" where
  "twoMarkets =
     [\<lparr>s_date = 19975, market_addr = ''0x93a8'', expiry = 19992, implied_apy = 4 / 100,
       underlying_apy = 5 / 100, days_to_expiry = Some 17\<rparr>,
      \<lparr>s_date = 19975, market_addr = ''0xd1d7'', expiry = 19992, implied_apy = 6 / 100,
       underlying_apy = 5 / 100, days_to_expiry = Some 17\<rparr>]"

section \<open>Properties of the regime classifier\<close>

lemma shape_cases:
  "st \<noteq> Single_maturity \<Longrightarrow>
   shape (interpretTermSpread v st) =
     (if v > 2 then ''STEEP CONTANGO'' else if v > 0.5 then ''CONTANGO''
      else if v > - 0.5 then ''FLAT'' else if v > - 5 then ''BACKWARDATION''
      else ''STEEP BACKWARDATION'')"
  by (simp add: interpretTermSpread_def Let_def)

lemma regime_cases:
  "st \<noteq> Single_maturity \<Longrightarrow>
   regime (interpretTermSpread v st) =
     (if v > 2 then ''STRONGLY BULLISH'' else if v > 0.5 then ''BULLISH''
      else if v > - 0.5 then ''NEUTRAL'' else if v > - 5 then ''MILDLY BEARISH''
      else ''BEARISH'')"
  by (simp add: interpretTermSpread_def Let_def)

text \<open>
  C4. For a spread kind other than single-maturity, the classifier answers
  steep contango / strongly bullish exactly when \<open>v > 2\<close>, contango / bullish exactly when
  \<open>0.5 < v \<le> 2\<close>, flat / neutral exactly when \<open>-0.5 < v \<le> 0.5\<close>, backwardation /
  mildly bearish exactly when \<open>-5 < v \<le> -0.5\<close>, and steep backwardation / bearish exactly
  when \<open>v \<le> -5\<close>; the value 2 itself is contango / bullish.
\<close>

theorem interpretTermSpread_buckets:
  assumes "st \<noteq> Single_maturity"
  shows "((shape (interpretTermSpread v st) = ''STEEP CONTANGO'' \<and>
           regime (interpretTermSpread v st) = ''STRONGLY BULLISH'') \<longleftrightarrow> v > 2)
       \<and> ((shape (interpretTermSpread v st) = ''CONTANGO'' \<and>
           regime (interpretTermSpread v st) = ''BULLISH'') \<longleftrightarrow> 0.5 < v \<and> v \<le> 2)
       \<and> ((shape (interpretTermSpread v st) = ''FLAT'' \<and>
           regime (interpretTermSpread v st) = ''NEUTRAL'') \<longleftrightarrow> - 0.5 < v \<and> v \<le> 0.5)
       \<and> ((shape (interpretTermSpread v st) = ''BACKWARDATION'' \<and>
           regime (interpretTermSpread v st) = ''MILDLY BEARISH'') \<longleftrightarrow> - 5 < v \<and> v \<le> - 0.5)
       \<and> ((shape (interpretTermSpread v st) = ''STEEP BACKWARDATION'' \<and>
           regime (interpretTermSpread v st) = ''BEARISH'') \<longleftrightarrow> v \<le> - 5)
       \<and> shape (interpretTermSpread 2 st) = ''CONTANGO''
       \<and> regime (interpretTermSpread 2 st) = ''BULLISH''"
proof -
  note sh = shape_cases [OF assms] and rg = regime_cases [OF assms]
  have a: "(shape (interpretTermSpread v st) = ''STEEP CONTANGO'' \<and>
            regime (interpretTermSpread v st) = ''STRONGLY BULLISH'') \<longleftrightarrow> v > 2"
    by (simp add: sh rg)
  have b: "(shape (interpretTermSpread v st) = ''CONTANGO'' \<and>
            regime (interpretTermSpread v st) = ''BULLISH'') \<longleftrightarrow> 0.5 < v \<and> v \<le> 2"
    by (simp add: sh rg)
  have c: "(shape (interpretTermSpread v st) = ''FLAT'' \<and>
            regime (interpretTermSpread v st) = ''NEUTRAL'') \<longleftrightarrow> - 0.5 < v \<and> v \<le> 0.5"
    by (simp add: sh rg)
  have d: "(shape (interpretTermSpread v st) = ''BACKWARDATION'' \<and>
            regime (interpretTermSpread v st) = ''MILDLY BEARISH'') \<longleftrightarrow> - 5 < v \<and> v \<le> - 0.5"
    by (simp add: sh rg)
  have e: "(shape (interpretTermSpread v st) = ''STEEP BACKWARDATION'' \<and>
            regime (interpretTermSpread v st) = ''BEARISH'') \<longleftrightarrow> v \<le> - 5"
    by (simp add: sh rg)
  have f: "shape (interpretTermSpread 2 st) = ''CONTANGO''"
    by (simp add: sh)
  have g: "regime (interpretTermSpread 2 st) = ''BULLISH''"
    by (simp add: rg)
  from a b c d e f g show ?thesis by blast
qed

theorem interpretTermSpread_buckets_witness:
  "Term_spread \<noteq> Single_maturity
   \<and> shape (interpretTermSpread 2 Term_spread) = ''CONTANGO''
   \<and> regime (interpretTermSpread 2 Term_spread) = ''BULLISH''
   \<and> shape (interpretTermSpread (- 5) Term_spread) = ''STEEP BACKWARDATION''"
proof -
  have h: "Term_spread \<noteq> Single_maturity" by simp
  from interpretTermSpread_buckets [OF h, of "- 5"] interpretTermSpread_buckets [OF h, of 2]
  show ?thesis by simp
qed

lemma clamp_max_min: "max lo (min hi x) = (if lo \<le> hi then clamp x lo hi else lo)"
  by (simp add: clamp_def max_def min_def)

lemma prob_eq:
  assumes "st \<noteq> Single_maturity"
  shows "probPositive90d (interpretTermSpread v st) = round1 (clamp (50 + v * 8) 5 95)"
proof -
  have c: "max 5 (min 95 (50 + v * 8)) = clamp (50 + v * 8) 5 95"
    by (simp add: clamp_max_min)
  show ?thesis
    using assms
    by (simp add: interpretTermSpread_def Let_def c round1_def Math_round_def round_def)
qed

lemma round1_near: "\<bar>round1 x - x\<bar> \<le> 1 / 20"
proof -
  have "\<bar>of_int (round (x * 10)) - x * 10\<bar> \<le> 1 / 2"
    by (rule of_int_round_abs_le)
  then show ?thesis
    unfolding round1_def by (simp add: field_simps abs_if split: if_splits)
qed

text \<open>
  C5. For a spread kind other than single-maturity the probability returned is
  \<open>clamp (50 + v * 8, 5, 95)\<close> rounded to one decimal place; for the kind
  single-maturity the result is the fixed no-signal classification with probability 50,
  whatever the value passed.
\<close>

theorem interpretTermSpread_probability:
  "(st \<noteq> Single_maturity \<longrightarrow>
      probPositive90d (interpretTermSpread v st) = round1 (clamp (50 + v * 8) 5 95))
   \<and> interpretTermSpread v Single_maturity =
       \<lparr>shape = ''SINGLE MATURITY'', regime = ''NO SIGNAL'', spreadValue = 0,
        spreadType = Single_maturity, probPositive90d = 50\<rparr>"
  by (simp add: prob_eq) (simp add: interpretTermSpread_def)

theorem interpretTermSpread_probability_witness:
  "Term_spread_7dma \<noteq> Single_maturity
   \<and> probPositive90d (interpretTermSpread (3 / 100) Term_spread_7dma) = 502 / 10
   \<and> probPositive90d (interpretTermSpread 10 Term_spread_7dma) = 95
   \<and> probPositive90d (interpretTermSpread 7 Single_maturity) = 50"
proof -
  have h: "Term_spread_7dma \<noteq> Single_maturity" by simp
  have r1: "round1 (clamp (50 + (3 / 100) * 8) 5 95) = 502 / 10"
    by (simp add: round1_def clamp_def round_def)
  have r2: "round1 (clamp (50 + 10 * 8) 5 95) = 95"
    by (simp add: round1_def clamp_def round_def)
  from interpretTermSpread_probability [of Term_spread_7dma "3 / 100"]
       interpretTermSpread_probability [of Term_spread_7dma 10]
       interpretTermSpread_probability [of Term_spread_7dma 7] h r1 r2
  show ?thesis by simp
qed

text \<open>
  C7 as stated fails: with two maturities, a raw spread of 0.3 percentage points
  (strictly positive) is classified flat, and a row whose raw spread is positive but whose
  stored 7-day average is -6 points is classified steep backwardation, since the
  classifier is given the smoothed value when there is one.
\<close>

theorem positive_spread_not_contango_counterexample:
  "num_maturities flatPositive \<ge> 2 \<and> term_spread flatPositive > 0
   \<and> shape (classifyLatest flatPositive) = ''FLAT''
   \<and> num_maturities smoothedNegative \<ge> 2 \<and> term_spread smoothedNegative > 0
   \<and> shape (classifyLatest smoothedNegative) = ''STEEP BACKWARDATION''"
  by (simp add: classifyLatest_def flatPositive_def smoothedNegative_def shape_cases)

text \<open>
  C7, amended. For a row with at least two maturities the value classified is
  \<open>v\<close>, the 7-day average when it is stored and the raw spread otherwise, in percentage
  points. The shape is in the contango family exactly when \<open>v > 0.5\<close>, in the
  backwardation family exactly when \<open>v \<le> -0.5\<close>, and flat in between.
\<close>

theorem classifyLatest_families:
  assumes "num_maturities r \<ge> 2"
  shows "let v = (case term_spread_7dma r of Some a \<Rightarrow> a | None \<Rightarrow> term_spread r) * 100 in
         (shape (classifyLatest r) \<in> {''CONTANGO'', ''STEEP CONTANGO''} \<longleftrightarrow> v > 0.5)
       \<and> (shape (classifyLatest r) \<in> {''BACKWARDATION'', ''STEEP BACKWARDATION''} \<longleftrightarrow> v \<le> - 0.5)
       \<and> (shape (classifyLatest r) = ''FLAT'' \<longleftrightarrow> - 0.5 < v \<and> v \<le> 0.5)"
  using assms
  by (cases "term_spread_7dma r") (simp_all add: classifyLatest_def Let_def shape_cases)

theorem classifyLatest_families_witness:
  "num_maturities contangoRow \<ge> 2
   \<and> shape (classifyLatest contangoRow) \<in> {''CONTANGO'', ''STEEP CONTANGO''}"
proof -
  have h: "num_maturities contangoRow \<ge> 2" by (simp add: contangoRow_def)
  from classifyLatest_families [OF h] h show ?thesis
    by (simp add: Let_def contangoRow_def)
qed

section \<open>Properties of the price lookup\<close>

text \<open>In a zone whose offset never changes, the key is the day moved by \<open>k\<close>.\<close>

lemma shiftedKey_fixed_offset:
  assumes "\<And>t. utcOffset tz t = c" and "\<And>t. localOffset tz t = c"
  shows "shiftedKey tz d k = d + k"
proof -
  let ?l = "d * msPerDay + c"
  have "(?l div msPerDay + k) * msPerDay + ?l mod msPerDay - c
        = (?l div msPerDay * msPerDay + ?l mod msPerDay) + k * msPerDay - c"
    by (simp add: algebra_simps)
  also have "\<dots> = (d + k) * msPerDay"
    by (simp only: div_mult_mod_eq) (simp add: algebra_simps)
  finally show ?thesis
    by (simp add: shiftedKey_def setDate_getDate_plus_def newDate_def toISODate_def Let_def
        assms msPerDay_def)
qed

lemma findPrice_findBtcPrice: "findPrice tz m d = findBtcPrice tz m d"
  by (simp add: findPrice_def findBtcPrice_def)

text \<open>No future price, no return: nothing is pushed for the row.\<close>

lemma forwardReturn_no_future:
  "finder tz m (shiftedKey tz (date row) 90) = None \<Longrightarrow> forwardReturn finder tz m row = None"
  by (simp add: forwardReturn_def split: option.splits)

text \<open>
  There the lookup behaves as the specification says: with no price on the target date,
  it answers with the first price in the order +1, -1, +2, -2, +3, -3 days, and with
  \<open>None\<close> when there is none within three days.
\<close>

lemma findBtcPrice_fixed_offset:
  assumes "\<And>t. utcOffset tz t = c" and "\<And>t. localOffset tz t = c" and "m d = None"
  shows "findBtcPrice tz m d =
           (case m (d + 1) of Some p \<Rightarrow> Some p | None \<Rightarrow>
            case m (d - 1) of Some p \<Rightarrow> Some p | None \<Rightarrow>
            case m (d + 2) of Some p \<Rightarrow> Some p | None \<Rightarrow>
            case m (d - 2) of Some p \<Rightarrow> Some p | None \<Rightarrow>
            case m (d + 3) of Some p \<Rightarrow> Some p | None \<Rightarrow> m (d - 3))"
  using assms(3)
  by (simp add: findBtcPrice_def shiftedKey_fixed_offset [OF assms(1,2)] split: option.splits)

text \<open>The keys probed in New York around the two changes of 2024.\<close>

lemma newYork_keys_march:
  "map (shiftedKey newYork2024 19791) [1, - 1, 2, - 2, 3, - 3]
   = [19792, 19790, 19792, 19789, 19793, 19788]"
  by (simp add: shiftedKey_def setDate_getDate_plus_def newDate_def toISODate_def Let_def
      newYork2024_def msPerDay_def)

lemma newYork_keys_november:
  "map (shiftedKey newYork2024 20032) [1, - 1, 2, - 2, 3, - 3]
   = [20033, 20031, 20034, 20029, 20035, 20028]"
  by (simp add: shiftedKey_def setDate_getDate_plus_def newDate_def toISODate_def Let_def
      newYork2024_def msPerDay_def)

text \<open>
  C8 in a browser in New York. The lookup for day 19791 (2024-03-09), which has no
  price, with a price three days later (2024-03-12) answers \<open>None\<close>: across the change
  of 2024-03-10 the keys probed are 03-10, 03-08, 03-10, 03-07, 03-11 and 03-06, and
  03-12 is never probed (in UTC the same lookup finds the price). The lookup for day
  20032 (2024-11-05) with the only price four days earlier (2024-11-01) answers that
  price, since the probe for -3 days lands on 11-01. Both copies of the lookup behave
  so.
\<close>

theorem findBtcPrice_dst_keys:
  "marchPrices 19791 = None \<and> marchPrices (19791 + 3) = Some 70000
   \<and> findBtcPrice newYork2024 marchPrices 19791 = None
   \<and> findPrice newYork2024 marchPrices 19791 = None
   \<and> findBtcPrice utc marchPrices 19791 = Some 70000
   \<and> novemberPrices 20032 = None \<and> dom novemberPrices = {20032 - 4}
   \<and> findBtcPrice newYork2024 novemberPrices 20032 = Some 68000
   \<and> findPrice newYork2024 novemberPrices 20032 = Some 68000"
proof -
  have "findBtcPrice utc marchPrices 19791 =
           (case marchPrices (19791 + 1) of Some p \<Rightarrow> Some p | None \<Rightarrow>
            case marchPrices (19791 - 1) of Some p \<Rightarrow> Some p | None \<Rightarrow>
            case marchPrices (19791 + 2) of Some p \<Rightarrow> Some p | None \<Rightarrow>
            case marchPrices (19791 - 2) of Some p \<Rightarrow> Some p | None \<Rightarrow>
            case marchPrices (19791 + 3) of Some p \<Rightarrow> Some p | None \<Rightarrow>
            marchPrices (19791 - 3))"
    by (rule findBtcPrice_fixed_offset [where c = 0]) (simp_all add: utc_def marchPrices_def)
  then have u: "findBtcPrice utc marchPrices 19791 = Some 70000"
    by (simp add: marchPrices_def)
  have k1: "shiftedKey newYork2024 19791 1 = 19792" "shiftedKey newYork2024 19791 (- 1) = 19790"
    "shiftedKey newYork2024 19791 2 = 19792" "shiftedKey newYork2024 19791 (- 2) = 19789"
    "shiftedKey newYork2024 19791 3 = 19793" "shiftedKey newYork2024 19791 (- 3) = 19788"
    using newYork_keys_march by simp_all
  have k2: "shiftedKey newYork2024 20032 1 = 20033" "shiftedKey newYork2024 20032 (- 1) = 20031"
    "shiftedKey newYork2024 20032 2 = 20034" "shiftedKey newYork2024 20032 (- 2) = 20029"
    "shiftedKey newYork2024 20032 3 = 20035" "shiftedKey newYork2024 20032 (- 3) = 20028"
    using newYork_keys_november by simp_all
  have a: "findBtcPrice newYork2024 marchPrices 19791 = None"
    by (simp add: findBtcPrice_def k1 marchPrices_def)
  have b: "findBtcPrice newYork2024 novemberPrices 20032 = Some 68000"
    by (simp add: findBtcPrice_def k2 novemberPrices_def)
  from u a b show ?thesis
    by (simp add: findPrice_findBtcPrice marchPrices_def novemberPrices_def)
qed

section \<open>Properties of the store\<close>

lemma lookup_map:
  assumes "\<And>r. date (f r) = date r"
  shows "lookup (map f t) d = map_option f (lookup t d)"
  by (induction t) (simp_all add: lookup_def assms)

lemma lookup_append_new:
  "lookup (t @ [r]) d = (case lookup t d of Some x \<Rightarrow> Some x | None \<Rightarrow> if date r = d then Some r else None)"
  by (induction t) (simp_all add: lookup_def)

lemma lookup_None_iff: "lookup t d = None \<longleftrightarrow> (\<forall>r \<in> set t. date r \<noteq> d)"
  by (auto simp: lookup_def find_None_iff)

lemma lookup_Some_date: "lookup t d = Some r \<Longrightarrow> date r = d"
  by (auto simp: lookup_def find_Some_iff)

lemma lookup_upsert_same:
  "lookup (upsertTermSpread p t) (p_date p) =
     (case lookup t (p_date p) of
        Some r \<Rightarrow> Some (conflictUpdate p r)
      | None \<Rightarrow> Some (insertedRow p))"
proof (cases "lookup t (p_date p)")
  case None
  then have "\<not> (\<exists>r \<in> set t. date r = p_date p)" by (simp add: lookup_None_iff)
  then show ?thesis using None
    by (simp add: upsertTermSpread_def lookup_append_new insertedRow_def)
next
  case (Some r)
  then have ex: "\<exists>r \<in> set t. date r = p_date p"
    using lookup_None_iff [of t "p_date p"] by auto
  have d: "date r = p_date p" using Some by (rule lookup_Some_date)
  have "lookup (map (\<lambda>r. if date r = p_date p then conflictUpdate p r else r) t) (p_date p)
        = map_option (\<lambda>r. if date r = p_date p then conflictUpdate p r else r) (lookup t (p_date p))"
    by (rule lookup_map) (simp add: conflictUpdate_def)
  then show ?thesis using Some ex d
    by (simp add: upsertTermSpread_def)
qed

lemma lookup_upsert_other:
  assumes "d \<noteq> p_date p"
  shows "lookup (upsertTermSpread p t) d = lookup t d"
proof (cases "\<exists>r \<in> set t. date r = p_date p")
  case True
  have "lookup (map (\<lambda>r. if date r = p_date p then conflictUpdate p r else r) t) d
        = map_option (\<lambda>r. if date r = p_date p then conflictUpdate p r else r) (lookup t d)"
    by (rule lookup_map) (simp add: conflictUpdate_def)
  moreover have "map_option (\<lambda>r. if date r = p_date p then conflictUpdate p r else r) (lookup t d) = lookup t d"
    using assms by (cases "lookup t d") (auto dest: lookup_Some_date)
  ultimately show ?thesis using True
    by (simp add: upsertTermSpread_def)
next
  case False
  then show ?thesis using assms
    by (simp add: upsertTermSpread_def lookup_append_new insertedRow_def split: option.splits)
qed

lemma lookup_update7dma:
  "lookup (updateTermSpread7dma (d, v) t) d' =
     map_option (\<lambda>r. if d' = d then r\<lparr>term_spread_7dma := Some v\<rparr> else r) (lookup t d')"
proof -
  have "lookup (updateTermSpread7dma (d, v) t) d' =
        map_option (\<lambda>r. if date r = d then r\<lparr>term_spread_7dma := Some v\<rparr> else r) (lookup t d')"
    unfolding updateTermSpread7dma_def fst_conv snd_conv by (rule lookup_map) simp
  then show ?thesis by (cases "lookup t d'") (auto dest: lookup_Some_date)
qed

lemma lookup_updateRegime:
  "lookup (updateRegime d rg ol pr t) d' =
     map_option (\<lambda>r. if d' = d then r\<lparr>ts_regime := rg, btc_outlook := ol, prob_positive_90d := pr\<rparr> else r)
       (lookup t d')"
proof -
  have "lookup (updateRegime d rg ol pr t) d' =
        map_option (\<lambda>r. if date r = d then r\<lparr>ts_regime := rg, btc_outlook := ol, prob_positive_90d := pr\<rparr> else r) (lookup t d')"
    unfolding updateRegime_def by (rule lookup_map) simp
  then show ?thesis by (cases "lookup t d'") (auto dest: lookup_Some_date)
qed

text \<open>
  C10. When the date already has a row, the upsert assigns the nine spread-derived
  columns and nothing else: the smoothed value and the regime, outlook and probability
  columns of the row are as before, and the rows of other dates are untouched. The
  smoothed value is written by \<open>updateTermSpread7dma\<close> alone, which changes no other
  column, and the regime columns by \<open>updateRegime\<close> alone.
\<close>

theorem upsertTermSpread_frame:
  assumes "lookup t (p_date p) = Some r"
  shows "lookup (upsertTermSpread p t) (p_date p) =
           Some (r\<lparr>front_addr := frontAddr p, front_expiry := frontExpiry p,
                   front_implied := frontImplied p, back_addr := backAddr p,
                   back_expiry := backExpiry p, back_implied := backImplied p,
                   term_spread := termSpread p, ts_underlying_apy := Some (underlyingApy p),
                   num_maturities := numMaturities p\<rparr>)
       \<and> (\<forall>r'. lookup (upsertTermSpread p t) (p_date p) = Some r' \<longrightarrow>
              term_spread_7dma r' = term_spread_7dma r \<and> ts_regime r' = ts_regime r
            \<and> btc_outlook r' = btc_outlook r \<and> prob_positive_90d r' = prob_positive_90d r)
       \<and> (\<forall>d. d \<noteq> p_date p \<longrightarrow> lookup (upsertTermSpread p t) d = lookup t d)
       \<and> lookup (updateTermSpread7dma (p_date p, v) t) (p_date p)
           = Some (r\<lparr>term_spread_7dma := Some v\<rparr>)
       \<and> lookup (updateRegime (p_date p) rg ol pr t) (p_date p)
           = Some (r\<lparr>ts_regime := rg, btc_outlook := ol, prob_positive_90d := pr\<rparr>)"
  using assms
  by (simp add: lookup_upsert_same lookup_upsert_other lookup_update7dma lookup_updateRegime
      conflictUpdate_def)

theorem upsertTermSpread_frame_witness:
  "lookup [storedRow] (p_date rerunParams) = Some storedRow
   \<and> map_option term_spread_7dma (lookup (upsertTermSpread rerunParams [storedRow]) 19876)
       = Some (Some (- 20 / 1000))
   \<and> map_option ts_regime (lookup (upsertTermSpread rerunParams [storedRow]) 19876)
       = Some (Some ''MILDLY BEARISH'')
   \<and> map_option term_spread (lookup (upsertTermSpread rerunParams [storedRow]) 19876)
       = Some (30 / 1000)"
proof -
  have h: "lookup [storedRow] (p_date rerunParams) = Some storedRow"
    by (simp add: lookup_def storedRow_def rerunParams_def)
  have d: "p_date rerunParams = 19876" by (simp add: rerunParams_def)
  from upsertTermSpread_frame [OF h] h d show ?thesis
    by (simp add: storedRow_def rerunParams_def)
qed

section \<open>Sums written as folds\<close>

lemma foldl_add_sum_list:
  fixes s :: real
  shows "foldl (\<lambda>a b. a + g b) s xs = s + sum_list (map g xs)"
  by (induction xs arbitrary: s) simp_all

lemma foldl_plus_sum_list: "foldl (+) (0::real) xs = sum_list xs"
  using foldl_add_sum_list [of "\<lambda>x. x" 0 xs] by simp

lemma reduce_sum_sum_list: "reduce_sum f xs = sum_list (map f xs)"
  by (simp add: reduce_sum_def foldl_add_sum_list)

section \<open>Properties of the decile binning\<close>

lemma length_js_slice: "length (js_slice xs a b) = min (b - a) (length xs - a)"
  by (simp add: js_slice_def)

lemma nth_js_slice:
  "k < b - a \<Longrightarrow> a + k < length xs \<Longrightarrow> js_slice xs a b ! k = xs ! (a + k)"
  by (simp add: js_slice_def)

lemma upt_10: "[0..<10] = [0, 1, 2, 3, 4, 5, 6, 7, 8, 9 :: nat]"
  by (simp add: upt_rec)

lemma decileSlice_25:
  assumes "length sr = 25" and "d < 10"
  shows "decileSlice sr d = js_slice sr (2 * d) (if d = 9 then 25 else 2 * d + 2)"
  using assms by (simp add: decileSlice_def Let_def mult.commute)

lemma length_decileSlice_25:
  assumes "length sr = 25" and "d < 10"
  shows "length (decileSlice sr d) = (if d = 9 then 7 else 2)"
  using assms by (auto simp: decileSlice_25 length_js_slice)

lemma count_decileRow: "count (decileRow tz sr m d) = length (decileSlice sr d)"
  by (simp add: decileRow_def Let_def)

lemma decile_decileRow: "decile (decileRow tz sr m d) = d + 1"
  by (simp add: decileRow_def Let_def)

lemma range_decileRow:
  "range_pct (decileRow tz sr m d) =
     (term_spread (decileSlice sr d ! 0) * 100,
      term_spread (decileSlice sr d ! (length (decileSlice sr d) - 1)) * 100)"
  by (simp add: decileRow_def Let_def)

lemma computeDeciles_25:
  assumes "length obs = 25"
  shows "computeDeciles tz obs m = map (decileRow tz (sort_key term_spread obs) m) [0..<10]"
  using assms by (simp add: computeDeciles_def Let_def)

lemma counts_25:
  assumes "length obs = 25"
  shows "map count (computeDeciles tz obs m) = [2, 2, 2, 2, 2, 2, 2, 2, 2, 7]"
proof -
  let ?sr = "sort_key term_spread obs"
  have l: "length ?sr = 25" using assms by simp
  have "map count (computeDeciles tz obs m) = map (\<lambda>d. length (decileSlice ?sr d)) [0..<10]"
    by (simp add: computeDeciles_25 [OF assms] count_decileRow comp_def)
  also have "\<dots> = map (\<lambda>d. if d = 9 then 7 else 2) [0..<10]"
    by (rule map_cong) (simp_all add: length_decileSlice_25 [OF l])
  also have "\<dots> = [2, 2, 2, 2, 2, 2, 2, 2, 2, 7]"
    by (simp add: upt_10)
  finally show ?thesis .
qed

lemma range_25:
  assumes "length obs = 25" and "d < 10"
  shows "range_pct (computeDeciles tz obs m ! d) =
           (term_spread (sort_key term_spread obs ! (2 * d)) * 100,
            term_spread (sort_key term_spread obs ! (if d = 9 then 24 else 2 * d + 1)) * 100)"
proof -
  let ?sr = "sort_key term_spread obs"
  have l: "length ?sr = 25" using assms by simp
  have r: "computeDeciles tz obs m ! d = decileRow tz ?sr m d"
    using assms(2) by (simp add: computeDeciles_25 [OF assms(1)])
  have s: "decileSlice ?sr d = js_slice ?sr (2 * d) (if d = 9 then 25 else 2 * d + 2)"
    by (rule decileSlice_25 [OF l assms(2)])
  have n: "length (decileSlice ?sr d) = (if d = 9 then 7 else 2)"
    by (rule length_decileSlice_25 [OF l assms(2)])
  have f: "decileSlice ?sr d ! 0 = ?sr ! (2 * d)"
    unfolding s using assms(2) l by (subst nth_js_slice) auto
  have b: "decileSlice ?sr d ! (length (decileSlice ?sr d) - 1)
           = ?sr ! (if d = 9 then 24 else 2 * d + 1)"
    unfolding n unfolding s using assms(2) l by (subst nth_js_slice) auto
  show ?thesis by (simp only: r range_decileRow f b)
qed

text \<open>
  C6 as stated fails: with 25 observations the bin size is 2 and the last bin takes
  the 7 observations from index 18 on, so its member count is neither 2 nor 3.
\<close>

theorem computeDeciles_last_bin_counterexample:
  "length obs25 = 25 \<and> count (computeDeciles utc obs25 Map.empty ! 9) = 7"
proof -
  have l: "length obs25 = 25" by (simp add: obs25_def)
  have "map count (computeDeciles utc obs25 Map.empty) ! 9 = 7"
    by (simp add: counts_25 [OF l])
  moreover have "length (computeDeciles utc obs25 Map.empty) = 10"
    by (simp add: computeDeciles_25 [OF l])
  ultimately show ?thesis using l by simp
qed

text \<open>
  C6, amended. Fewer than 20 observations give the empty list. Exactly 25
  observations give 10 bins, numbered 1 to 10, cut from the observations sorted
  ascending by spread: bins 1 to 9 hold the sorted observations \<open>2 d\<close> and \<open>2 d + 1\<close>
  (2 members each), and bin 10 holds the observations 18 to 24 (7 members: its own 2 and
  the remainder of 5).
\<close>

theorem computeDeciles_bins:
  "(length obs < 20 \<longrightarrow> computeDeciles tz obs m = [])
 \<and> (length obs = 25 \<longrightarrow>
      length (computeDeciles tz obs m) = 10
    \<and> map decile (computeDeciles tz obs m) = [1, 2, 3, 4, 5, 6, 7, 8, 9, 10]
    \<and> map count (computeDeciles tz obs m) = [2, 2, 2, 2, 2, 2, 2, 2, 2, 7]
    \<and> sorted (map term_spread (sort_key term_spread obs))
    \<and> (\<forall>d < 10. range_pct (computeDeciles tz obs m ! d) =
           (term_spread (sort_key term_spread obs ! (2 * d)) * 100,
            term_spread (sort_key term_spread obs ! (if d = 9 then 24 else 2 * d + 1)) * 100)))"
proof -
  have a: "length obs < 20 \<longrightarrow> computeDeciles tz obs m = []"
    by (simp add: computeDeciles_def)
  have b: "length (computeDeciles tz obs m) = 10" if "length obs = 25"
    using that by (simp add: computeDeciles_25)
  have c: "map decile (computeDeciles tz obs m) = [1, 2, 3, 4, 5, 6, 7, 8, 9, 10]" if "length obs = 25"
    using that by (simp add: computeDeciles_25 decile_decileRow comp_def upt_10)
  have d: "sorted (map term_spread (sort_key term_spread obs))"
    by (rule sorted_sort_key)
  from a b c d counts_25 range_25 show ?thesis by blast
qed


theorem computeDeciles_bins_witness:
  "length [gapRow] < (20::nat) \<and> computeDeciles utc [gapRow] Map.empty = []
   \<and> length obs25 = 25 \<and> length (computeDeciles utc obs25 Map.empty) = 10
   \<and> map count (computeDeciles utc obs25 Map.empty) = [2, 2, 2, 2, 2, 2, 2, 2, 2, 7]"
proof -
  have l: "length obs25 = 25" by (simp add: obs25_def)
  from computeDeciles_bins [of "[gapRow]" utc Map.empty] computeDeciles_bins [of obs25 utc Map.empty] l
  show ?thesis by simp
qed

section \<open>Properties of the realized volatility\<close>

lemma concat_singletons:
  assumes "\<And>j. j \<in> set js \<Longrightarrow> P j"
  shows "concat (map (\<lambda>j. if P j then [f j] else []) js) = map f js"
  using assms by (induction js) simp_all

lemma logReturns_positive:
  assumes pos: "\<And>x. x \<in> set rows \<Longrightarrow> snd x > 0" and i: "i < length rows"
  shows "logReturns rows i = map (\<lambda>j. ln (snd (rows ! j) / snd (rows ! (j - 1)))) [i - 29..<i + 1]"
  unfolding logReturns_def
proof (rule concat_singletons)
  fix j assume "j \<in> set [i - 29..<i + 1]"
  then have "j < length rows" "j - 1 < length rows" using i by auto
  then have "snd (rows ! j) > 0" "snd (rows ! (j - 1)) > 0"
    by (auto intro: pos)
  then show "snd (rows ! j) \<noteq> 0 \<and> snd (rows ! (j - 1)) \<noteq> 0" by simp
qed

lemma vol30d_positive:
  assumes pos: "\<And>x. x \<in> set rows \<Longrightarrow> snd x > 0" and i: "i < length rows"
  shows "vol30d rows i =
           (if i \<ge> 30
            then Some (stddev (map (\<lambda>j. ln (snd (rows ! j) / snd (rows ! (j - 1))))
                                  [i - 29..<i + 1]) * sqrt 365 * 100)
            else None)"
proof (cases "i \<ge> 30")
  case False
  then show ?thesis by (simp add: vol30d_def)
next
  case True
  let ?rs = "map (\<lambda>j. ln (snd (rows ! j) / snd (rows ! (j - 1)))) [i - 29..<i + 1]"
  have lr: "logReturns rows i = ?rs" by (rule logReturns_positive [OF pos i])
  have len: "length ?rs = 30" using True by simp
  have "vol30d rows i =
          Some (sqrt (sum_list (map (\<lambda>b. (b - mean ?rs)\<^sup>2) ?rs) / real (length ?rs) * 365) * 100)"
    using True len
    by (simp only: vol30d_def lr Let_def foldl_plus_sum_list foldl_add_sum_list mean_def) simp
  also have "\<dots> = Some (stddev ?rs * sqrt 365 * 100)"
    by (simp only: stddev_def real_sqrt_mult)
  finally show ?thesis using True by simp
qed

lemma pricedRows_filter:
  "pricedRows obs m =
     map (\<lambda>r. (r, the (priceAt m r))) (filter (\<lambda>r. priceAt m r \<noteq> None) obs)"
  by (induction obs)
     (auto simp: pricedRows_def List.map_filter_def priceAt_def split: option.splits)

lemma pricedRows_positive:
  assumes "\<forall>r \<in> set obs. \<forall>p. priceAt m r = Some p \<longrightarrow> p > 0"
      and "x \<in> set (pricedRows obs m)"
  shows "snd x > 0"
  using assms by (auto simp: pricedRows_filter)

lemma volSeries_vol30d:
  assumes "\<forall>r \<in> set obs. \<forall>p. priceAt m r = Some p \<longrightarrow> p > 0"
      and "i < length (filter (\<lambda>r. priceAt m r \<noteq> None) obs)"
  shows "vol_30d (volSeries obs m ! i) =
           (if i \<ge> 30
            then Some (stddev (map (\<lambda>j. ln (the (priceAt m (filter (\<lambda>r. priceAt m r \<noteq> None) obs ! j))
                                          / the (priceAt m (filter (\<lambda>r. priceAt m r \<noteq> None) obs ! (j - 1)))))
                                   [i - 29..<i + 1]) * sqrt 365 * 100)
            else None)"
proof -
  let ?kept = "filter (\<lambda>r. priceAt m r \<noteq> None) obs"
  let ?rows = "pricedRows obs m"
  have len: "length ?rows = length ?kept" by (simp add: pricedRows_filter)
  have i: "i < length ?rows" using assms(2) len by simp
  have pos: "\<And>x. x \<in> set ?rows \<Longrightarrow> snd x > 0"
    using assms(1) by (rule pricedRows_positive)
  have v: "vol_30d (volSeries obs m ! i) = vol30d ?rows i"
    using i by (simp add: volSeries_def Let_def)
  have snd_row: "snd (?rows ! j) = the (priceAt m (?kept ! j))" if "j < length ?kept" for j
    using that by (simp add: pricedRows_filter)
  have "map (\<lambda>j. ln (snd (?rows ! j) / snd (?rows ! (j - 1)))) [i - 29..<i + 1]
        = map (\<lambda>j. ln (the (priceAt m (?kept ! j)) / the (priceAt m (?kept ! (j - 1)))))
            [i - 29..<i + 1]"
  proof (rule map_cong [OF refl])
    fix j assume "j \<in> set [i - 29..<i + 1]"
    then have "j < length ?kept" "j - 1 < length ?kept" using assms(2) by auto
    then show "ln (snd (?rows ! j) / snd (?rows ! (j - 1)))
               = ln (the (priceAt m (?kept ! j)) / the (priceAt m (?kept ! (j - 1))))"
      by (simp only: snd_row)
  qed
  then show ?thesis
    unfolding v by (simp only: vol30d_positive [OF pos i])
qed

text \<open>The priced observations of the series with the gap.\<close>

lemma gapObs_priced:
  "filter (\<lambda>r. priceAt Map.empty r \<noteq> None) gapObs =
     map (\<lambda>k. gapRow\<lparr>date := 19885 + int k, btc_price := Some (60000 + 100 * real k)\<rparr>)
       ([0..<17] @ [24..<48])"
proof -
  have split: "[0..<48] = [0..<17] @ [17..<24] @ [24..<48]"
    using upt_add_eq_append [of 0 17 31] upt_add_eq_append [of 17 24 24] by simp
  show ?thesis
    unfolding gapObs_def split
    by (auto simp: filter_map comp_def priceAt_def gapRow_def intro!: filter_True
        simp: filter_empty_conv)
qed

lemma gapObs_positive:
  "\<forall>r \<in> set gapObs. \<forall>p. priceAt Map.empty r = Some p \<longrightarrow> p > 0"
  by (auto simp: gapObs_def priceAt_def split: if_splits)

text \<open>
  C9 as stated fails. In a series of 48 consecutive days of which the days 19902 to
  19908 have no price, the entry of index 30 of the chart is day 19922; the observation
  of day 19908, fourteen days before it, has no price, so only 13 consecutive priced days
  precede it, and yet it has a volatility: the chart counts positions in the list of
  priced observations and compares no dates.
\<close>

theorem volSeries_gap_counterexample:
  "date (gapObs ! 23) = 19908 \<and> priceAt Map.empty (gapObs ! 23) = None
   \<and> v_date (volSeries gapObs Map.empty ! 30) = 19922
   \<and> vol_30d (volSeries gapObs Map.empty ! 30) \<noteq> None"
proof -
  have a: "date (gapObs ! 23) = 19908 \<and> priceAt Map.empty (gapObs ! 23) = None"
    by (simp add: gapObs_def priceAt_def)
  have l: "30 < length (filter (\<lambda>r. priceAt Map.empty r \<noteq> None) gapObs)"
    unfolding gapObs_priced by simp
  have "v_date (volSeries gapObs Map.empty ! 30)
        = date (fst (pricedRows gapObs Map.empty ! 30))"
    using l by (simp add: volSeries_def Let_def pricedRows_filter)
  also have "\<dots> = 19922"
    unfolding pricedRows_filter gapObs_priced by (simp add: nth_append)
  finally have b: "v_date (volSeries gapObs Map.empty ! 30) = 19922" .
  have c: "vol_30d (volSeries gapObs Map.empty ! 30) \<noteq> None"
    by (simp add: volSeries_vol30d [OF gapObs_positive l])
  from a b c show ?thesis by simp
qed

text \<open>
  C9, amended. The chart has one entry for each priced observation (its own price, else
  the price of exactly its date in the map), in the order of the observations. With
  positive prices, the entry at index \<open>i\<close> of that list has a volatility exactly when
  \<open>i \<ge> 30\<close>, that is when at least 30 priced observations precede it, whatever their
  dates. The value is then the standard deviation of the 30 log returns between successive
  priced observations \<open>i - 30\<close> to \<open>i\<close>, times the root of 365, times 100. Below 30 the
  value is \<open>None\<close>, not zero.
\<close>

theorem volSeries_window:
  assumes "\<forall>r \<in> set obs. \<forall>p. priceAt m r = Some p \<longrightarrow> p > 0"
      and "i < length (filter (\<lambda>r. priceAt m r \<noteq> None) obs)"
  shows "let kept = filter (\<lambda>r. priceAt m r \<noteq> None) obs;
             price = (\<lambda>j. the (priceAt m (kept ! j)))
         in length (volSeries obs m) = length kept
          \<and> v_date (volSeries obs m ! i) = date (kept ! i)
          \<and> vol_30d (volSeries obs m ! i) =
              (if i \<ge> 30
               then Some (stddev (map (\<lambda>j. ln (price j / price (j - 1))) [i - 29..<i + 1])
                          * sqrt 365 * 100)
               else None)
          \<and> (vol_30d (volSeries obs m ! i) \<noteq> None \<longleftrightarrow> i \<ge> 30)"
proof -
  let ?kept = "filter (\<lambda>r. priceAt m r \<noteq> None) obs"
  have len: "length (volSeries obs m) = length ?kept"
    by (simp add: volSeries_def Let_def pricedRows_filter)
  have d: "v_date (volSeries obs m ! i) = date (?kept ! i)"
    using assms(2) by (simp add: volSeries_def Let_def pricedRows_filter)
  note v = volSeries_vol30d [OF assms]
  have e: "vol_30d (volSeries obs m ! i) \<noteq> None \<longleftrightarrow> i \<ge> 30"
    unfolding v by simp
  from len d v e show ?thesis unfolding Let_def by blast
qed

theorem volSeries_window_witness:
  "30 < length (filter (\<lambda>r. priceAt Map.empty r \<noteq> None) gapObs)
   \<and> length (volSeries gapObs Map.empty) = 41
   \<and> vol_30d (volSeries gapObs Map.empty ! 30) \<noteq> None
   \<and> vol_30d (volSeries gapObs Map.empty ! 29) = None"
proof -
  have a: "30 < length (filter (\<lambda>r. priceAt Map.empty r \<noteq> None) gapObs)"
      and b: "29 < length (filter (\<lambda>r. priceAt Map.empty r \<noteq> None) gapObs)"
      and l: "length (filter (\<lambda>r. priceAt Map.empty r \<noteq> None) gapObs) = 41"
    unfolding gapObs_priced by simp_all
  from volSeries_window [OF gapObs_positive a] volSeries_window [OF gapObs_positive b] a l
  show ?thesis by (simp add: Let_def)
qed

section \<open>Properties of the smoothing pass\<close>

lemma take_drop_nth_upt:
  assumes "a + k \<le> length xs"
  shows "take k (drop a xs) = map ((!) xs) [a..<a + k]"
  using assms by (intro nth_equalityI) auto

lemma sum_list_js_slice:
  fixes f :: "'a \<Rightarrow> real"
  assumes "a \<le> b" and "b \<le> length xs"
  shows "sum_list (map f (js_slice xs a b)) = (\<Sum>j = a..<b. f (xs ! j))"
proof -
  have "js_slice xs a b = map ((!) xs) [a..<b]"
    using assms take_drop_nth_upt [of a "b - a" xs] by (simp add: js_slice_def)
  then show ?thesis
    by (simp add: comp_def interv_sum_list_conv_sum_set_nat)
qed

lemma trailingAvg_mean:
  assumes "i < length rows"
  shows "trailingAvg rows i = (\<Sum>j = i - 6..i. term_spread (rows ! j)) / real (min i 6 + 1)"
proof -
  have ws: "nat (max 0 (int i - 6)) = i - 6" by simp
  have len: "length (js_slice rows (i - 6) (i + 1)) = min i 6 + 1"
    using assms by (simp add: length_js_slice)
  have "sum_list (map term_spread (js_slice rows (i - 6) (Suc i)))
           = (\<Sum>j = i - 6..<Suc i. term_spread (rows ! j))"
    using assms by (intro sum_list_js_slice) auto
  then have s: "sum_list (map term_spread (js_slice rows (i - 6) (i + 1)))
           = (\<Sum>j = i - 6..i. term_spread (rows ! j))"
    unfolding atLeastLessThanSuc_atLeastAtMost by (simp only: Suc_eq_plus1)
  show ?thesis
    by (simp only: trailingAvg_def Let_def ws reduce_sum_sum_list s len)
qed

lemma lookup_member:
  assumes "distinct (map date t)" and "r \<in> set t"
  shows "lookup t (date r) = Some r"
  using assms by (induction t) (auto simp: lookup_def)

lemma lookup_foldl_update_absent:
  assumes "d \<notin> fst ` set us"
  shows "lookup (foldl (\<lambda>t' u. updateTermSpread7dma u t') t us) d = lookup t d"
  using assms
proof (induction us arbitrary: t)
  case Nil
  then show ?case by simp
next
  case (Cons u us)
  obtain d' v where u: "u = (d', v)" by (cases u)
  with Cons.prems have "d \<noteq> d'" by auto
  then have "lookup (updateTermSpread7dma u t) d = lookup t d"
    by (cases "lookup t d") (simp_all add: u lookup_update7dma)
  with Cons show ?case by simp
qed

lemma lookup_foldl_update:
  assumes "distinct (map fst us)" and "(d, v) \<in> set us" and "lookup t d = Some r0"
  shows "lookup (foldl (\<lambda>t' u. updateTermSpread7dma u t') t us) d
         = Some (r0\<lparr>term_spread_7dma := Some v\<rparr>)"
  using assms
proof (induction us arbitrary: t r0)
  case Nil
  then show ?case by simp
next
  case (Cons u us)
  obtain d' v' where u: "u = (d', v')" by (cases u)
  show ?case
  proof (cases "d' = d")
    case True
    with Cons.prems u have v: "v' = v" by (auto simp: image_iff)
    from Cons.prems u True have absent: "d \<notin> fst ` set us" by auto
    have "lookup (updateTermSpread7dma u t) d = Some (r0\<lparr>term_spread_7dma := Some v\<rparr>)"
      using Cons.prems(3) by (simp add: u True v lookup_update7dma)
    then show ?thesis
      by (simp add: lookup_foldl_update_absent [OF absent])
  next
    case False
    with Cons.prems u have mem: "(d, v) \<in> set us" by auto
    have "lookup (updateTermSpread7dma u t) d = Some r0"
      using Cons.prems(3) False by (simp add: u lookup_update7dma)
    with Cons.IH [OF _ mem this] Cons.prems(1) show ?thesis by simp
  qed
qed

lemma sum_interval_list:
  fixes f :: "nat \<Rightarrow> real"
  shows "(\<Sum>j = a..b. f j) = sum_list (map f [a..<Suc b])"
  by (simp only: interv_sum_list_conv_sum_set_nat set_upt atLeastLessThanSuc_atLeastAtMost)

lemma series8_sorted:
  "spreadSeries series8 =
     map (\<lambda>k. storedRow\<lparr>date := 19884 + k, term_spread := real_of_int k / 100,
                         term_spread_7dma := None\<rparr>)
       [0, 1, 2, 3, 4, 5, 6, 7]"
  by (simp add: spreadSeries_def series8_def)

text \<open>
  C3. Let \<open>rows\<close> be the stored spread series in ascending date order. After the
  smoothing pass, the row of the date at index \<open>i\<close> has its spread unchanged and its
  smoothed value equal to the arithmetic mean of the spreads at the indices
  \<open>max 0 (i - 6)\<close> to \<open>i\<close> (on naturals \<open>i - 6\<close> is cut at 0): seven entries when
  \<open>i \<ge> 6\<close>, the \<open>i + 1\<close> entries from index 0 otherwise. No entry after \<open>i\<close> occurs in
  it.
\<close>

theorem compute7DayMA_trailing_mean:
  assumes "distinct (map date t)" and "i < length t"
  shows "let rows = spreadSeries t in
         sorted (map date rows)
       \<and> (\<exists>r. lookup (compute7DayMA t) (date (rows ! i)) = Some r
              \<and> term_spread r = term_spread (rows ! i)
              \<and> term_spread_7dma r =
                  Some ((\<Sum>j = i - 6..i. term_spread (rows ! j)) / real (min i 6 + 1)))"
proof -
  let ?rows = "spreadSeries t"
  have len: "length ?rows = length t" by (simp add: spreadSeries_def)
  have i: "i < length ?rows" using assms(2) len by simp
  have srt: "sorted (map date ?rows)" by (simp add: spreadSeries_def)
  have mem: "?rows ! i \<in> set t"
    using i nth_mem [of i ?rows] by (simp add: spreadSeries_def)
  have l0: "lookup t (date (?rows ! i)) = Some (?rows ! i)"
    by (rule lookup_member [OF assms(1) mem])
  have fsts: "map fst (maUpdates ?rows) = map date ?rows"
    by (intro nth_equalityI) (simp_all add: maUpdates_def)
  have "distinct (map date ?rows)"
    using assms(1) by (simp add: spreadSeries_def distinct_map)
  then have dist: "distinct (map fst (maUpdates ?rows))" by (simp only: fsts)
  have upd: "(date (?rows ! i), trailingAvg ?rows i) \<in> set (maUpdates ?rows)"
    using i by (auto simp: maUpdates_def)
  have ne: "length ?rows \<noteq> 0" using i by auto
  have "lookup (compute7DayMA t) (date (?rows ! i))
        = Some ((?rows ! i)\<lparr>term_spread_7dma := Some (trailingAvg ?rows i)\<rparr>)"
    using ne lookup_foldl_update [OF dist upd l0] by (simp add: compute7DayMA_def Let_def)
  then show ?thesis
    using srt by (simp add: Let_def trailingAvg_mean [OF i])
qed


theorem compute7DayMA_trailing_mean_witness:
  "distinct (map date series8) \<and> 7 < length series8
   \<and> map_option term_spread_7dma (lookup (compute7DayMA series8) 19891) = Some (Some (4 / 100))
   \<and> map_option term_spread_7dma (lookup (compute7DayMA series8) 19886) = Some (Some (1 / 100))"
proof -
  have d: "distinct (map date series8)" by (simp add: series8_def)
  have l7: "7 < length series8" and l2: "2 < length series8" by (simp_all add: series8_def)
  have "(7::nat) - 6 = 1" "min (7::nat) 6 = 6" by simp_all
  from compute7DayMA_trailing_mean [OF d l7] compute7DayMA_trailing_mean [OF d l2] d l7
  show ?thesis
    by (auto simp: Let_def series8_sorted sum_interval_list upt_rec)
qed

section \<open>Properties of the spread engine\<close>

lemma newSet_acc:
  "distinct acc \<Longrightarrow>
   set (foldl (\<lambda>acc x. if x \<in> set acc then acc else acc @ [x]) acc xs) = set acc \<union> set xs
   \<and> distinct (foldl (\<lambda>acc x. if x \<in> set acc then acc else acc @ [x]) acc xs)"
  by (induction xs arbitrary: acc) auto

lemma set_newSet: "set (newSet xs) = set xs"
  using newSet_acc [of "[]" xs] by (simp add: newSet_def)

lemma distinct_newSet: "distinct (newSet xs)"
  using newSet_acc [of "[]" xs] by (simp add: newSet_def)

lemma sorted_first_Min:
  fixes xs :: "'a::linorder list"
  assumes "sorted xs" and "xs \<noteq> []"
  shows "xs ! 0 = Min (set xs)"
proof (rule Min_eqI [symmetric])
  show "finite (set xs)" by simp
  show "xs ! 0 \<in> set xs" using assms(2) by simp
  fix y assume "y \<in> set xs"
  then obtain k where "k < length xs" "y = xs ! k" by (auto simp: in_set_conv_nth)
  then show "xs ! 0 \<le> y" using assms(1) by (simp add: sorted_nth_mono)
qed

lemma sorted_last_Max:
  fixes xs :: "'a::linorder list"
  assumes "sorted xs" and "xs \<noteq> []"
  shows "xs ! (length xs - 1) = Max (set xs)"
proof (rule Max_eqI [symmetric])
  show "finite (set xs)" by simp
  show "xs ! (length xs - 1) \<in> set xs" using assms(2) by simp
  fix y assume "y \<in> set xs"
  then obtain k where "k < length xs" "y = xs ! k" by (auto simp: in_set_conv_nth)
  then show "y \<le> xs ! (length xs - 1)" using assms(1) by (simp add: sorted_nth_mono)
qed

lemma maturities_liveSnapshots:
  "set (map expiry (liveSnapshots snaps d)) = maturities snaps d"
  by (auto simp: liveSnapshots_def maturities_def)

lemma filter_liveSnapshots:
  "filter (\<lambda>s. expiry s = e) (liveSnapshots snaps d) = leg snaps d e"
proof -
  have "filter (\<lambda>s. expiry s = e) (liveSnapshots snaps d)
        = filter (\<lambda>s. expiry s = e) (filter (\<lambda>s. s_date s = d \<and> live s) snaps)"
    unfolding liveSnapshots_def by (rule sort_key_stable)
  also have "\<dots> = leg snaps d e"
    by (auto simp: leg_def intro: filter_cong)
  finally show ?thesis .
qed

text \<open>The sorted list of the distinct maturities of a date.\<close>

lemma uniqueExpiries:
  "sorted (sort (newSet (map expiry (liveSnapshots snaps d))))"
  "distinct (sort (newSet (map expiry (liveSnapshots snaps d))))"
  "set (sort (newSet (map expiry (liveSnapshots snaps d)))) = maturities snaps d"
  "length (sort (newSet (map expiry (liveSnapshots snaps d)))) = card (maturities snaps d)"
proof -
  let ?u = "sort (newSet (map expiry (liveSnapshots snaps d)))"
  show "sorted ?u" by simp
  show d: "distinct ?u" by (simp add: distinct_newSet)
  show s: "set ?u = maturities snaps d"
    by (simp add: set_newSet maturities_liveSnapshots [symmetric])
  from distinct_card [OF d] s show "length ?u = card (maturities snaps d)" by simp
qed

lemma spreadParams_date: "spreadParams d xs = Some p \<Longrightarrow> p_date p = d"
  by (auto simp: spreadParams_def Let_def split: if_splits)

lemma processDate_establishes:
  assumes "spreadParams d (liveSnapshots snaps d) = Some p"
  shows "\<exists>r. lookup (processDate snaps t d) d = Some r \<and> carries p r"
proof -
  have pd: "p_date p = d" using assms by (rule spreadParams_date)
  have "lookup (upsertTermSpread p t) (p_date p) =
          (case lookup t (p_date p) of Some r \<Rightarrow> Some (conflictUpdate p r)
           | None \<Rightarrow> Some (insertedRow p))"
    by (rule lookup_upsert_same)
  moreover have "carries p (insertedRow p)"
    by (simp add: carries_def insertedRow_def)
  moreover have "carries p (conflictUpdate p r)" if "lookup t (p_date p) = Some r" for r
    using lookup_Some_date [OF that] by (simp add: carries_def conflictUpdate_def)
  ultimately show ?thesis
    using assms pd by (cases "lookup t d") (auto simp: processDate_def)
qed

lemma processDate_other:
  assumes "d' \<noteq> d"
  shows "lookup (processDate snaps t d') d = lookup t d"
proof (cases "spreadParams d' (liveSnapshots snaps d')")
  case None
  then show ?thesis by (simp add: processDate_def)
next
  case (Some p')
  then have "p_date p' = d'" by (rule spreadParams_date)
  with assms Some show ?thesis
    by (simp add: processDate_def lookup_upsert_other)
qed

lemma processDate_preserves:
  assumes "spreadParams d (liveSnapshots snaps d) = Some p"
      and "\<exists>r. lookup t d = Some r \<and> carries p r"
  shows "\<exists>r. lookup (processDate snaps t d') d = Some r \<and> carries p r"
proof (cases "d' = d")
  case True
  then show ?thesis using processDate_establishes [OF assms(1)] by simp
next
  case False
  then show ?thesis using assms(2) by (simp add: processDate_other)
qed

lemma foldl_processDate_preserves:
  assumes "spreadParams d (liveSnapshots snaps d) = Some p"
      and "\<exists>r. lookup t d = Some r \<and> carries p r"
  shows "\<exists>r. lookup (foldl (processDate snaps) t ds) d = Some r \<and> carries p r"
  using assms(2)
proof (induction ds arbitrary: t)
  case Nil
  then show ?case by simp
next
  case (Cons d' ds)
  have "\<exists>r. lookup (processDate snaps t d') d = Some r \<and> carries p r"
    by (rule processDate_preserves [OF assms(1) Cons.prems])
  then show ?case using Cons.IH by simp
qed

lemma foldl_processDate_establishes:
  assumes "spreadParams d (liveSnapshots snaps d) = Some p" and "d \<in> set ds"
  shows "\<exists>r. lookup (foldl (processDate snaps) t ds) d = Some r \<and> carries p r"
  using assms(2)
proof (induction ds arbitrary: t)
  case Nil
  then show ?case by simp
next
  case (Cons d' ds)
  show ?case
  proof (cases "d' = d")
    case True
    have "\<exists>r. lookup (processDate snaps t d) d = Some r \<and> carries p r"
      by (rule processDate_establishes [OF assms(1)])
    then show ?thesis
      using foldl_processDate_preserves [OF assms(1)] True by simp
  next
    case False
    with Cons.prems have "d \<in> set ds" by simp
    then show ?thesis using Cons.IH by simp
  qed
qed

lemma computeTermSpreads_carries:
  assumes "spreadParams d (liveSnapshots snaps d) = Some p"
      and "maturities snaps d \<noteq> {}"
  shows "\<exists>r. lookup (computeTermSpreads snaps t) d = Some r \<and> carries p r"
proof -
  have "d \<in> set (snapshotDates snaps)"
    using assms(2) by (auto simp: snapshotDates_def maturities_def)
  then show ?thesis
    unfolding computeTermSpreads_def by (rule foldl_processDate_establishes [OF assms(1)])
qed


lemma liveSnapshots_nonempty:
  assumes "maturities snaps d \<noteq> {}"
  shows "liveSnapshots snaps d \<noteq> []"
  using assms maturities_liveSnapshots [of snaps d] by auto

lemma spreadParams_multi:
  assumes "card (maturities snaps d) \<ge> 2"
  shows "spreadParams d (liveSnapshots snaps d) =
           Some \<lparr>p_date = d,
                 frontAddr = market_addr (leg snaps d (Min (maturities snaps d)) ! 0),
                 frontExpiry = Min (maturities snaps d),
                 frontImplied = mean_implied (leg snaps d (Min (maturities snaps d))),
                 backAddr = market_addr (leg snaps d (Max (maturities snaps d)) ! 0),
                 backExpiry = Max (maturities snaps d),
                 backImplied = mean_implied (leg snaps d (Max (maturities snaps d))),
                 termSpread = mean_implied (leg snaps d (Max (maturities snaps d)))
                            - mean_implied (leg snaps d (Min (maturities snaps d))),
                 underlyingApy = underlying_apy (leg snaps d (Min (maturities snaps d)) ! 0),
                 numMaturities = int (card (maturities snaps d))\<rparr>"
proof -
  let ?l = "liveSnapshots snaps d"
  let ?u = "sort (newSet (map expiry ?l))"
  let ?E = "maturities snaps d"
  have E: "?E \<noteq> {}" using assms by auto
  have ne: "length ?l \<noteq> 0" using liveSnapshots_nonempty [OF E] by simp
  have len: "length ?u = card ?E" by (rule uniqueExpiries(4))
  from len assms have "0 < length ?u" by linarith
  then have une: "?u \<noteq> []" by (rule length_greater_0_conv [THEN iffD1])
  have f: "?u ! 0 = Min ?E"
    using sorted_first_Min [OF uniqueExpiries(1) une] by (simp only: uniqueExpiries(3))
  have "?u ! (length ?u - 1) = Max ?E"
    using sorted_last_Max [OF uniqueExpiries(1) une] by (simp only: uniqueExpiries(3))
  then have b: "?u ! (card ?E - 1) = Max ?E" by (simp only: len)
  show ?thesis
    unfolding spreadParams_def Let_def
    using assms
    by (simp only: ne len f b filter_liveSnapshots reduce_sum_sum_list mean_implied_def
        if_False if_True)
qed

lemma leg_nonempty:
  assumes "e \<in> maturities snaps d"
  shows "leg snaps d e \<noteq> []"
proof -
  from assms obtain s where "s \<in> set snaps" "s_date s = d" "live s" "expiry s = e"
    by (auto simp: maturities_def)
  then have "s \<in> set (leg snaps d e)" by (simp add: leg_def)
  then show ?thesis by auto
qed

lemma finite_maturities: "finite (maturities snaps d)"
  by (simp add: maturities_def)

text \<open>
  C1. For a date on which at least two distinct maturities are left among the
  snapshots with \<open>days_to_expiry > 0\<close>, the spread engine leaves a row for that date whose
  front expiry is the least and whose back expiry is the greatest of those maturities,
  whose front and back implied yields are the unweighted means of the implied yields of
  the live snapshots of that maturity (both legs are non-empty), whose spread is the
  stored back yield minus the stored front yield, and whose maturity count is the number
  of distinct maturities.
\<close>

theorem computeTermSpreads_multi_maturity:
  assumes "card (maturities snaps d) \<ge> 2"
  shows "\<exists>r. lookup (computeTermSpreads snaps t) d = Some r
           \<and> front_expiry r = Min (maturities snaps d)
           \<and> back_expiry r = Max (maturities snaps d)
           \<and> leg snaps d (front_expiry r) \<noteq> []
           \<and> leg snaps d (back_expiry r) \<noteq> []
           \<and> front_implied r = mean_implied (leg snaps d (front_expiry r))
           \<and> back_implied r = mean_implied (leg snaps d (back_expiry r))
           \<and> term_spread r = back_implied r - front_implied r
           \<and> num_maturities r = int (card (maturities snaps d))"
proof -
  let ?E = "maturities snaps d"
  have E: "?E \<noteq> {}" using assms by auto
  have lo: "leg snaps d (Min ?E) \<noteq> []"
    by (rule leg_nonempty) (rule Min_in [OF finite_maturities E])
  have hi: "leg snaps d (Max ?E) \<noteq> []"
    by (rule leg_nonempty) (rule Max_in [OF finite_maturities E])
  from computeTermSpreads_carries [OF spreadParams_multi [OF assms] E, of t]
  obtain r where "lookup (computeTermSpreads snaps t) d = Some r"
    and c: "carries \<lparr>p_date = d,
                 frontAddr = market_addr (leg snaps d (Min ?E) ! 0),
                 frontExpiry = Min ?E,
                 frontImplied = mean_implied (leg snaps d (Min ?E)),
                 backAddr = market_addr (leg snaps d (Max ?E) ! 0),
                 backExpiry = Max ?E,
                 backImplied = mean_implied (leg snaps d (Max ?E)),
                 termSpread = mean_implied (leg snaps d (Max ?E))
                            - mean_implied (leg snaps d (Min ?E)),
                 underlyingApy = underlying_apy (leg snaps d (Min ?E) ! 0),
                 numMaturities = int (card ?E)\<rparr> r"
    by blast
  then show ?thesis using lo hi by (simp add: carries_def)
qed

theorem computeTermSpreads_multi_maturity_witness:
  "card (maturities scenario1 19875) \<ge> 2
   \<and> map_option front_expiry (lookup (computeTermSpreads scenario1 []) 19875) = Some 19905
   \<and> map_option back_expiry (lookup (computeTermSpreads scenario1 []) 19875) = Some 20058
   \<and> map_option front_implied (lookup (computeTermSpreads scenario1 []) 19875) = Some (4 / 100)
   \<and> map_option back_implied (lookup (computeTermSpreads scenario1 []) 19875) = Some (7 / 100)
   \<and> map_option term_spread (lookup (computeTermSpreads scenario1 []) 19875) = Some (3 / 100)
   \<and> map_option num_maturities (lookup (computeTermSpreads scenario1 []) 19875) = Some 2"
proof -
  have m: "maturities scenario1 19875 = {19905, 20058}"
    unfolding maturities_liveSnapshots [symmetric]
    by (simp add: liveSnapshots_def scenario1_def live_def insert_commute)
  have c: "card (maturities scenario1 19875) \<ge> 2" by (simp add: m)
  have lo: "Min (maturities scenario1 19875) = 19905"
    and hi: "Max (maturities scenario1 19875) = 20058" by (simp_all add: m)
  have f: "mean_implied (leg scenario1 19875 19905) = 4 / 100"
    by (simp add: mean_implied_def leg_def scenario1_def live_def)
  have b: "mean_implied (leg scenario1 19875 20058) = 7 / 100"
    by (simp add: mean_implied_def leg_def scenario1_def live_def)
  from computeTermSpreads_multi_maturity [OF c, of "[]"] c
  show ?thesis by (auto simp: m f b)
qed

text \<open>
  The single-maturity branch: the row has maturity count 1, spread 0 and equal legs, and
  its yield is the implied yield of the first live snapshot.
\<close>

lemma spreadParams_single:
  assumes "card (maturities snaps d) = 1"
  shows "spreadParams d (liveSnapshots snaps d) =
           Some \<lparr>p_date = d,
                 frontAddr = market_addr (liveSnapshots snaps d ! 0),
                 frontExpiry = expiry (liveSnapshots snaps d ! 0),
                 frontImplied = implied_apy (liveSnapshots snaps d ! 0),
                 backAddr = market_addr (liveSnapshots snaps d ! 0),
                 backExpiry = expiry (liveSnapshots snaps d ! 0),
                 backImplied = implied_apy (liveSnapshots snaps d ! 0),
                 termSpread = 0,
                 underlyingApy = underlying_apy (liveSnapshots snaps d ! 0),
                 numMaturities = 1\<rparr>"
proof -
  let ?l = "liveSnapshots snaps d"
  have E: "maturities snaps d \<noteq> {}" using assms by auto
  have ne: "length ?l \<noteq> 0" using liveSnapshots_nonempty [OF E] by simp
  have len: "length (sort (newSet (map expiry ?l))) = 1"
    using assms by (simp only: uniqueExpiries(4))
  show ?thesis
    unfolding spreadParams_def Let_def by (simp only: ne len) simp
qed

lemma computeTermSpreads_single_maturity:
  assumes "card (maturities snaps d) = 1"
  shows "\<exists>r. lookup (computeTermSpreads snaps t) d = Some r
           \<and> num_maturities r = 1 \<and> term_spread r = 0
           \<and> back_addr r = front_addr r \<and> back_expiry r = front_expiry r
           \<and> back_implied r = front_implied r
           \<and> front_addr r = market_addr (liveSnapshots snaps d ! 0)
           \<and> front_implied r = implied_apy (liveSnapshots snaps d ! 0)"
proof -
  have E: "maturities snaps d \<noteq> {}" using assms by auto
  from computeTermSpreads_carries [OF spreadParams_single [OF assms] E, of t]
  show ?thesis by (auto simp: carries_def)
qed

lemma twoMarkets_live: "liveSnapshots twoMarkets 19975 = twoMarkets"
  by (simp add: liveSnapshots_def twoMarkets_def live_def)

text \<open>
  C2 on two markets that share the only live maturity, with implied yields of 4% and
  6%: the unweighted mean of the leg is 5%, and the row written has the yield and the
  address of the first snapshot on both legs (4%), where the multi-maturity branch
  averages the snapshots of a leg.
\<close>

theorem single_maturity_first_snapshot:
  "maturities twoMarkets 19975 = {19992}
   \<and> mean_implied (leg twoMarkets 19975 19992) = 5 / 100
   \<and> map_option front_implied (lookup (computeTermSpreads twoMarkets []) 19975) = Some (4 / 100)
   \<and> map_option back_implied (lookup (computeTermSpreads twoMarkets []) 19975) = Some (4 / 100)
   \<and> map_option front_addr (lookup (computeTermSpreads twoMarkets []) 19975) = Some ''0x93a8''"
proof -
  have m: "maturities twoMarkets 19975 = {19992}"
    unfolding maturities_liveSnapshots [symmetric] twoMarkets_live
    by (simp add: twoMarkets_def)
  have l: "leg twoMarkets 19975 19992 = twoMarkets"
    unfolding filter_liveSnapshots [symmetric] twoMarkets_live
    by (simp add: twoMarkets_def)
  have a: "mean_implied (leg twoMarkets 19975 19992) = 5 / 100"
    unfolding l by (simp add: mean_implied_def twoMarkets_def)
  have c: "card (maturities twoMarkets 19975) = 1" by (simp add: m)
  have ne: "maturities twoMarkets 19975 \<noteq> {}" by (simp add: m)
  from computeTermSpreads_carries [OF spreadParams_single [OF c] ne, of "[]"]
  have "map_option front_implied (lookup (computeTermSpreads twoMarkets []) 19975) = Some (4 / 100)
   \<and> map_option back_implied (lookup (computeTermSpreads twoMarkets []) 19975) = Some (4 / 100)
   \<and> map_option front_addr (lookup (computeTermSpreads twoMarkets []) 19975) = Some ''0x93a8''"
    by (auto simp: carries_def twoMarkets_live) (simp_all add: twoMarkets_def)
  with m a show ?thesis by simp
qed


end
